theory Spec2Isabelle
  imports Main "HOL-Library.Product_Lexorder"
begin

section \<open>The SQLite session and event store (SQLiteStorageProvider)\<close>

text \<open>
  A shallow embedding of the class \<^verbatim>\<open>SQLiteStorageProvider\<close>. The object state
  (\<^verbatim>\<open>this.db\<close>, \<^verbatim>\<open>this.initialized\<close>) is passed explicitly; every method is a
  function from the state to a result and the state afterwards. A thrown \<^verbatim>\<open>Error\<close> is
  the left injection of the result, and the state returned with it is the state the
  exception leaves behind: the statements that ran before the throw keep their effect,
  since the class never opens a transaction.

  What the class takes from outside is made explicit:
  \<^item> \<^verbatim>\<open>Date.now()\<close>: every reading of the clock is an argument of the method;
  \<^item> \<^verbatim>\<open>JSON.stringify\<close> and \<^verbatim>\<open>JSON.parse\<close>: a record of two functions, the
    argument \<open>J\<close>;
  \<^item> the database engine (\<^verbatim>\<open>node:sqlite\<close>): the tables are lists of rows in insertion
    (rowid) order, and each statement of the class is a function on them that follows
    SQLite's semantics for that statement.
\<close>

subsection \<open>Values, errors and rows\<close>

text \<open>A JavaScript \<^verbatim>\<open>Error\<close>, identified by its message.\<close>

datatype js_error = Error string

text \<open>
  JSON-like JavaScript values: the event payloads and the tags. Numbers are the integers
  (timestamps are integral milliseconds).
\<close>

datatype jsval =
    JNull
  | JBool bool
  | JNum int
  | JStr string
  | JArr "jsval list"
  | JObj "(string \<times> jsval) list"

text \<open>JavaScript truthiness, as \<^verbatim>\<open>x ? a : b\<close> and \<^verbatim>\<open>x || d\<close> test it.\<close>

fun truthy :: "jsval \<Rightarrow> bool" where
  "truthy JNull = False"
| "truthy (JBool b) = b"
| "truthy (JNum n) = (n \<noteq> 0)"
| "truthy (JStr s) = (s \<noteq> [])"
| "truthy (JArr xs) = True"
| "truthy (JObj kvs) = True"

text \<open>The decimal text of an integer, as error messages and JSON texts print it.\<close>

fun digits :: "nat \<Rightarrow> string" where
  "digits n = (if n < 10 then [''0123456789'' ! n] else digits (n div 10) @ [''0123456789'' ! (n mod 10)])"

definition show_int :: "int \<Rightarrow> string" where
  "show_int i = (if i < 0 then CHR ''-'' # digits (nat (- i)) else digits (nat i))"

record json =
  stringify :: "jsval \<Rightarrow> string"
  parse :: "string \<Rightarrow> js_error + jsval"

text \<open>\<^verbatim>\<open>interface SessionRow\<close>: \<open>None\<close> is SQL \<^verbatim>\<open>NULL\<close>.\<close>

record SessionRow =
  row_id :: string
  row_createdAt :: int
  row_updatedAt :: int
  row_name :: "string option"
  row_workingDirectory :: string
  row_tags :: "string option"

text \<open>\<^verbatim>\<open>interface EventRow\<close>.\<close>

record EventRow =
  ev_id :: nat
  ev_sessionId :: string
  ev_timestamp :: int
  ev_eventData :: string

text \<open>\<^verbatim>\<open>interface ExistsResult\<close>.\<close>

record ExistsResult =
  existsFlag :: nat

text \<open>
  Modelled from the spec: the declaration of \<^verbatim>\<open>SessionMetadata\<close> lives in
  \<^verbatim>\<open>./types\<close>, which is not among the sources. The fields are the ones the class
  reads and writes; \<open>None\<close> is a property that is absent or \<^verbatim>\<open>undefined\<close>.
\<close>

record SessionMetadata =
  md_id :: string
  md_createdAt :: "int option"
  md_updatedAt :: "int option"
  md_name :: "string option"
  md_workingDirectory :: "string option"
  md_tags :: "jsval option"

text \<open>
  A property of the argument of \<^verbatim>\<open>updateSessionMetadata\<close>, of type
  \<^verbatim>\<open>Partial<Omit<SessionMetadata, 'id'>>\<close>: not an own property of the object, an
  own property holding \<^verbatim>\<open>undefined\<close>, or one holding a value. Object spread copies
  the last two, the test \<^verbatim>\<open>!== undefined\<close> passes for the last only.
\<close>

datatype 'a property = Absent | Undefined | Defined 'a

record SessionPatch =
  p_createdAt :: "int property"
  p_updatedAt :: "int property"
  p_name :: "string property"
  p_workingDirectory :: "string property"
  p_tags :: "jsval property"

subsection \<open>The database engine\<close>

text \<open>
  The state of the \<^verbatim>\<open>DatabaseSync\<close> connection and of the file behind it. A table
  that has not been created is \<open>None\<close>. \<open>seq\<close> is the \<^verbatim>\<open>AUTOINCREMENT\<close> counter of
  the events table. \<open>budget\<close> is the number of engine calls that will still succeed
  before the engine starts to fail with an I/O error (\<open>None\<close>: it never does); it
  stands for the failures (disk full, I/O error) that make \<^verbatim>\<open>open\<close>, \<^verbatim>\<open>exec\<close>,
  \<^verbatim>\<open>run\<close>, \<^verbatim>\<open>get\<close> and \<^verbatim>\<open>all\<close> throw, which every \<^verbatim>\<open>catch\<close> of the class
  is written for.
\<close>

record database =
  isOpen :: bool
  wal :: bool
  foreign_keys :: bool
  sessions :: "SessionRow list option"
  events :: "EventRow list option"
  idx_events_sessionId :: bool
  seq :: nat
  budget :: "nat option"

definition session_rows :: "database \<Rightarrow> SessionRow list" where
  "session_rows d = (case sessions d of None \<Rightarrow> [] | Some rs \<Rightarrow> rs)"

definition event_rows :: "database \<Rightarrow> EventRow list" where
  "event_rows d = (case events d of None \<Rightarrow> [] | Some es \<Rightarrow> es)"

definition engine_ready :: "database \<Rightarrow> js_error option" where
  "engine_ready d =
     (if \<not> isOpen d then Some (Error ''database is not open'')
      else if budget d = Some 0 then Some (Error ''disk I/O error'')
      else None)"

definition spend :: "database \<Rightarrow> database" where
  "spend d = d\<lparr>budget := map_option (\<lambda>k. k - 1) (budget d)\<rparr>"

text \<open>
  One statement, prepared and executed: it needs an open connection, and it either takes
  effect as a whole or throws and leaves the database as it was (SQLite runs each
  statement outside a transaction in a transaction of its own).
\<close>

definition stmt :: "(database \<Rightarrow> js_error + ('a \<times> database)) \<Rightarrow> database \<Rightarrow> (js_error + 'a) \<times> database" where
  "stmt body d =
     (case engine_ready d of
        Some e \<Rightarrow> (Inl e, d)
      | None \<Rightarrow>
          (case body d of
             Inl e \<Rightarrow> (Inl e, d)
           | Inr (x, d') \<Rightarrow> (Inr x, spend d')))"

text \<open>
  \<^verbatim>\<open>this.db.open()\<close>: throws on a connection that is open already. An open that
  fails has allocated the handle of the connection all the same, and \<^verbatim>\<open>isOpen\<close> reports
  it from then on.
\<close>

definition db_open :: "database \<Rightarrow> (js_error + unit) \<times> database" where
  "db_open d =
     (if isOpen d then (Inl (Error ''database is already open''), d)
      else if budget d = Some 0
      then (Inl (Error ''unable to open database file''), d\<lparr>isOpen := True\<rparr>)
      else (Inr (), spend (d\<lparr>isOpen := True\<rparr>)))"

text \<open>\<^verbatim>\<open>this.db.close()\<close>.\<close>

definition db_close :: "database \<Rightarrow> database" where
  "db_close d = d\<lparr>isOpen := False\<rparr>"

text \<open>\<^verbatim>\<open>PRAGMA journal_mode = WAL\<close>\<close>

definition exec_journal_mode_wal :: "database \<Rightarrow> (js_error + unit) \<times> database" where
  "exec_journal_mode_wal = stmt (\<lambda>d. Inr ((), d\<lparr>wal := True\<rparr>))"

text \<open>\<^verbatim>\<open>CREATE TABLE IF NOT EXISTS sessions (...)\<close>\<close>

definition exec_create_sessions :: "database \<Rightarrow> (js_error + unit) \<times> database" where
  "exec_create_sessions =
     stmt (\<lambda>d. Inr ((), case sessions d of None \<Rightarrow> d\<lparr>sessions := Some []\<rparr> | Some rs \<Rightarrow> d))"

text \<open>\<^verbatim>\<open>CREATE TABLE IF NOT EXISTS events (...)\<close>\<close>

definition exec_create_events :: "database \<Rightarrow> (js_error + unit) \<times> database" where
  "exec_create_events =
     stmt (\<lambda>d. Inr ((), case events d of None \<Rightarrow> d\<lparr>events := Some []\<rparr> | Some es \<Rightarrow> d))"

text \<open>\<^verbatim>\<open>CREATE INDEX IF NOT EXISTS idx_events_sessionId ON events (sessionId)\<close>\<close>

definition exec_create_index :: "database \<Rightarrow> (js_error + unit) \<times> database" where
  "exec_create_index =
     stmt (\<lambda>d. case events d of
                  None \<Rightarrow> Inl (Error ''no such table: main.events'')
                | Some es \<Rightarrow> Inr ((), d\<lparr>idx_events_sessionId := True\<rparr>))"

text \<open>\<^verbatim>\<open>PRAGMA foreign_keys = ON\<close>\<close>

definition exec_foreign_keys_on :: "database \<Rightarrow> (js_error + unit) \<times> database" where
  "exec_foreign_keys_on = stmt (\<lambda>d. Inr ((), d\<lparr>foreign_keys := True\<rparr>))"

text \<open>\<^verbatim>\<open>SELECT 1 as existsFlag FROM sessions WHERE id = ?\<close>, read with \<^verbatim>\<open>get\<close>.\<close>

definition select_exists :: "string \<Rightarrow> database \<Rightarrow> (js_error + ExistsResult option) \<times> database" where
  "select_exists sessionId =
     stmt (\<lambda>d. case sessions d of
                  None \<Rightarrow> Inl (Error ''no such table: sessions'')
                | Some rs \<Rightarrow>
                    Inr (map_option (\<lambda>r. \<lparr>existsFlag = 1\<rparr>) (find (\<lambda>r. row_id r = sessionId) rs), d))"

text \<open>
  The integers a JavaScript number holds exactly: up to \<^verbatim>\<open>Number.MAX_SAFE_INTEGER\<close>,
  which is \<open>2\<^sup>5\<^sup>3 - 1\<close>, in absolute value.
\<close>

definition safe_integer :: "int \<Rightarrow> bool" where
  "safe_integer v = (\<bar>v\<bar> < 2 ^ 53)"

text \<open>
  Reading an \<^verbatim>\<open>INTEGER\<close> column into a JavaScript number: \<^verbatim>\<open>get\<close> throws for a
  stored integer beyond \<^verbatim>\<open>Number.MAX_SAFE_INTEGER\<close>. A number bound to the column is
  stored as an integer when it lies strictly between \<open>-2\<^sup>6\<^sup>3\<close> and \<open>2\<^sup>6\<^sup>3\<close>; beyond
  that the column keeps the number as it was bound, and \<^verbatim>\<open>get\<close> returns it.
\<close>

definition too_large :: "int \<Rightarrow> bool" where
  "too_large v = (2 ^ 53 \<le> \<bar>v\<bar> \<and> \<bar>v\<bar> < 2 ^ 63)"

definition out_of_range :: "int \<Rightarrow> js_error" where
  "out_of_range v =
     Error (''Value is too large to be represented as a JavaScript number: '' @ show_int v)"

text \<open>
  \<^verbatim>\<open>SELECT id, createdAt, updatedAt, name, workingDirectory, tags FROM sessions WHERE id = ?\<close>,
  read with \<^verbatim>\<open>get\<close>: the columns of the row found are read in their order, and
  \<open>createdAt\<close> and \<open>updatedAt\<close> are the integers among them.
\<close>

definition select_session :: "string \<Rightarrow> database \<Rightarrow> (js_error + SessionRow option) \<times> database" where
  "select_session sessionId =
     stmt (\<lambda>d. case sessions d of
                  None \<Rightarrow> Inl (Error ''no such table: sessions'')
                | Some rs \<Rightarrow>
                    (case find (\<lambda>r. row_id r = sessionId) rs of
                       None \<Rightarrow> Inr (None, d)
                     | Some r \<Rightarrow>
                         if too_large (row_createdAt r) then Inl (out_of_range (row_createdAt r))
                         else if too_large (row_updatedAt r) then Inl (out_of_range (row_updatedAt r))
                         else Inr (Some r, d)))"

text \<open>
  \<^verbatim>\<open>INSERT INTO sessions (id, createdAt, updatedAt, name, workingDirectory, tags) VALUES (?, ?, ?, ?, ?, ?)\<close>,
  run with its six parameters. \<^verbatim>\<open>undefined\<close> (here a \<^verbatim>\<open>workingDirectory\<close> of
  \<open>None\<close>) cannot be bound to a parameter; \<^verbatim>\<open>id\<close> is the primary key.
\<close>

definition insert_session ::
  "string \<Rightarrow> int \<Rightarrow> int \<Rightarrow> string option \<Rightarrow> string option \<Rightarrow> string option \<Rightarrow>
   database \<Rightarrow> (js_error + unit) \<times> database" where
  "insert_session sessionId createdAt updatedAt name workingDirectory tags =
     stmt (\<lambda>d. case sessions d of
                  None \<Rightarrow> Inl (Error ''no such table: sessions'')
                | Some rs \<Rightarrow>
                    (case workingDirectory of
                       None \<Rightarrow> Inl (Error ''Provided value cannot be bound to SQLite parameter 5.'')
                     | Some wd \<Rightarrow>
                         if \<exists>r \<in> set rs. row_id r = sessionId
                         then Inl (Error ''UNIQUE constraint failed: sessions.id'')
                         else Inr ((), d\<lparr>sessions := Some (rs @
                                [\<lparr>row_id = sessionId, row_createdAt = createdAt,
                                  row_updatedAt = updatedAt, row_name = name,
                                  row_workingDirectory = wd, row_tags = tags\<rparr>])\<rparr>)))"

text \<open>
  The columns an \<^verbatim>\<open>UPDATE sessions SET ... WHERE id = ?\<close> assigns: the
  \<^verbatim>\<open>setClauses\<close> with their \<^verbatim>\<open>params\<close>.
\<close>

datatype set_clause =
    SetName "string option"
  | SetWorkingDirectory string
  | SetTags "string option"
  | SetUpdatedAt int

fun assign :: "set_clause \<Rightarrow> SessionRow \<Rightarrow> SessionRow" where
  "assign (SetName v) r = r\<lparr>row_name := v\<rparr>"
| "assign (SetWorkingDirectory v) r = r\<lparr>row_workingDirectory := v\<rparr>"
| "assign (SetTags v) r = r\<lparr>row_tags := v\<rparr>"
| "assign (SetUpdatedAt v) r = r\<lparr>row_updatedAt := v\<rparr>"

text \<open>\<^verbatim>\<open>UPDATE sessions SET <setClauses> WHERE id = ?\<close>\<close>

definition update_session :: "set_clause list \<Rightarrow> string \<Rightarrow> database \<Rightarrow> (js_error + unit) \<times> database" where
  "update_session setClauses sessionId =
     stmt (\<lambda>d. case sessions d of
                  None \<Rightarrow> Inl (Error ''no such table: sessions'')
                | Some rs \<Rightarrow>
                    Inr ((), d\<lparr>sessions :=
                      Some (map (\<lambda>r. if row_id r = sessionId then fold assign setClauses r else r) rs)\<rparr>))"

text \<open>
  The rowid an \<^verbatim>\<open>INTEGER PRIMARY KEY AUTOINCREMENT\<close> column gives to a new row: one
  more than the largest rowid the table has ever held.
\<close>

definition next_event_id :: "database \<Rightarrow> nat" where
  "next_event_id d = Suc (fold max (map ev_id (event_rows d)) (seq d))"

text \<open>
  \<^verbatim>\<open>INSERT INTO events (sessionId, timestamp, eventData) VALUES (?, ?, ?)\<close>: with
  foreign keys enforced, \<^verbatim>\<open>sessionId\<close> has to reference a session.
\<close>

definition insert_event :: "string \<Rightarrow> int \<Rightarrow> string \<Rightarrow> database \<Rightarrow> (js_error + unit) \<times> database" where
  "insert_event sessionId timestamp eventData =
     stmt (\<lambda>d. case events d of
                  None \<Rightarrow> Inl (Error ''no such table: events'')
                | Some es \<Rightarrow>
                    if foreign_keys d \<and> \<not> (\<exists>r \<in> set (session_rows d). row_id r = sessionId)
                    then Inl (Error ''FOREIGN KEY constraint failed'')
                    else Inr ((), d\<lparr>events := Some (es @
                           [\<lparr>ev_id = next_event_id d, ev_sessionId = sessionId,
                             ev_timestamp = timestamp, ev_eventData = eventData\<rparr>]),
                           seq := next_event_id d\<rparr>))"

text \<open>\<^verbatim>\<open>DELETE FROM events WHERE sessionId = ?\<close>\<close>

definition delete_events :: "string \<Rightarrow> database \<Rightarrow> (js_error + unit) \<times> database" where
  "delete_events sessionId =
     stmt (\<lambda>d. case events d of
                  None \<Rightarrow> Inl (Error ''no such table: events'')
                | Some es \<Rightarrow> Inr ((), d\<lparr>events := Some (filter (\<lambda>e. ev_sessionId e \<noteq> sessionId) es)\<rparr>))"

text \<open>
  \<^verbatim>\<open>DELETE FROM sessions WHERE id = ?\<close>: the result is \<^verbatim>\<open>changes\<close>, the number of
  session rows deleted. With foreign keys enforced, \<^verbatim>\<open>ON DELETE CASCADE\<close> deletes the
  events of a deleted session.
\<close>

definition delete_session :: "string \<Rightarrow> database \<Rightarrow> (js_error + nat) \<times> database" where
  "delete_session sessionId =
     stmt (\<lambda>d. case sessions d of
                  None \<Rightarrow> Inl (Error ''no such table: sessions'')
                | Some rs \<Rightarrow>
                    Inr (length (filter (\<lambda>r. row_id r = sessionId) rs),
                         d\<lparr>sessions := Some (filter (\<lambda>r. row_id r \<noteq> sessionId) rs),
                           events := (if foreign_keys d \<and> (\<exists>r \<in> set rs. row_id r = sessionId)
                                      then map_option (filter (\<lambda>e. ev_sessionId e \<noteq> sessionId)) (events d)
                                      else events d)\<rparr>))"

text \<open>
  The rows that \<^verbatim>\<open>SELECT ... FROM events WHERE sessionId = ? ORDER BY timestamp ASC, id ASC\<close>
  reads, in the order it returns them.
\<close>

definition session_events :: "string \<Rightarrow> EventRow list \<Rightarrow> EventRow list" where
  "session_events sessionId es =
     sort_key (\<lambda>e. (ev_timestamp e, ev_id e)) (filter (\<lambda>e. ev_sessionId e = sessionId) es)"

text \<open>\<^verbatim>\<open>SELECT eventData FROM events WHERE sessionId = ? ORDER BY timestamp ASC, id ASC\<close>, read with \<^verbatim>\<open>all\<close>.\<close>

definition select_events :: "string \<Rightarrow> database \<Rightarrow> (js_error + string list) \<times> database" where
  "select_events sessionId =
     stmt (\<lambda>d. case events d of
                  None \<Rightarrow> Inl (Error ''no such table: events'')
                | Some es \<Rightarrow> Inr (map ev_eventData (session_events sessionId es), d))"

subsection \<open>The provider\<close>

record provider =
  db :: database
  initialized :: bool

text \<open>
  A method body: from the state to the value returned or the error thrown, and the state
  afterwards.
\<close>

type_synonym 'a action = "provider \<Rightarrow> (js_error + 'a) \<times> provider"

definition on_db :: "(database \<Rightarrow> (js_error + 'a) \<times> database) \<Rightarrow> 'a action" where
  "on_db m p = (case m (db p) of (r, d') \<Rightarrow> (r, p\<lparr>db := d'\<rparr>))"

definition return_ok :: "'a \<Rightarrow> 'a action" where
  "return_ok x p = (Inr x, p)"

definition throw :: "js_error \<Rightarrow> 'a action" where
  "throw e p = (Inl e, p)"

text \<open>Sequencing: a throw skips what follows.\<close>

definition and_then :: "'a action \<Rightarrow> ('a \<Rightarrow> 'b action) \<Rightarrow> 'b action" where
  "and_then m f p = (case m p of (Inl e, p') \<Rightarrow> (Inl e, p') | (Inr x, p') \<Rightarrow> f x p')"

text \<open>
  \<^verbatim>\<open>try { m } catch (error) { throw new Error(`<prefix>${error.message}`) }\<close>
\<close>

definition try_catch :: "string \<Rightarrow> 'a action \<Rightarrow> 'a action" where
  "try_catch prefix m p =
     (case m p of
        (Inl (Error msg), p') \<Rightarrow> (Inl (Error (prefix @ msg)), p')
      | (Inr x, p') \<Rightarrow> (Inr x, p'))"

text \<open>
  \<^verbatim>\<open>initialize\<close>: its \<^verbatim>\<open>catch\<close> logs and throws the error it caught.
\<close>

definition initialize :: "unit action" where
  "initialize p =
     (if \<not> initialized p then
        and_then (on_db db_open) (\<lambda>_.
        and_then (on_db exec_journal_mode_wal) (\<lambda>_.
        and_then (on_db exec_create_sessions) (\<lambda>_.
        and_then (on_db exec_create_events) (\<lambda>_.
        and_then (on_db exec_create_index) (\<lambda>_.
        and_then (on_db exec_foreign_keys_on) (\<lambda>_.
        (\<lambda>q. (Inr (), q\<lparr>initialized := True\<rparr>)))))))) p
      else (Inr (), p))"

definition ensureInitialized :: "unit action" where
  "ensureInitialized p = (if \<not> initialized p then initialize p else (Inr (), p))"

text \<open>\<^verbatim>\<open>x || d\<close> on a number that may be \<^verbatim>\<open>undefined\<close>.\<close>

definition or_number :: "int option \<Rightarrow> int \<Rightarrow> int" where
  "or_number x d = (case x of None \<Rightarrow> d | Some n \<Rightarrow> if n = 0 then d else n)"

text \<open>\<^verbatim>\<open>x || null\<close> and \<^verbatim>\<open>x || undefined\<close> on a string that may be missing.\<close>

definition or_null :: "string option \<Rightarrow> string option" where
  "or_null x = (case x of None \<Rightarrow> None | Some s \<Rightarrow> if s = [] then None else Some s)"

text \<open>\<^verbatim>\<open>tags ? JSON.stringify(tags) : null\<close>\<close>

definition tags_json :: "json \<Rightarrow> jsval option \<Rightarrow> string option" where
  "tags_json J tags =
     (case tags of None \<Rightarrow> None | Some t \<Rightarrow> if truthy t then Some (stringify J t) else None)"

text \<open>
  \<^verbatim>\<open>createSession\<close>. \<open>now1\<close> and \<open>now2\<close> are the two readings of the clock.
\<close>

definition createSession :: "json \<Rightarrow> SessionMetadata \<Rightarrow> int \<Rightarrow> int \<Rightarrow> SessionMetadata action" where
  "createSession J metadata now1 now2 =
     and_then ensureInitialized (\<lambda>_.
       let sessionData = metadata\<lparr>md_createdAt := Some (or_number (md_createdAt metadata) now1),
                                  md_updatedAt := Some (or_number (md_updatedAt metadata) now2)\<rparr>;
           tagsJson = tags_json J (md_tags sessionData)
       in try_catch ''Failed to create session: ''
            (and_then (on_db (insert_session
                 (md_id sessionData)
                 (or_number (md_createdAt metadata) now1)
                 (or_number (md_updatedAt metadata) now2)
                 (or_null (md_name sessionData))
                 (md_workingDirectory sessionData)
                 tagsJson)) (\<lambda>_.
             return_ok sessionData)))"

text \<open>\<^verbatim>\<open>row.tags ? JSON.parse(row.tags) : undefined\<close>\<close>

definition parse_tags :: "json \<Rightarrow> string option \<Rightarrow> js_error + jsval option" where
  "parse_tags J t =
     (case t of
        None \<Rightarrow> Inr None
      | Some s \<Rightarrow>
          if s = [] then Inr None
          else (case parse J s of Inl e \<Rightarrow> Inl e | Inr v \<Rightarrow> Inr (Some v)))"

text \<open>\<^verbatim>\<open>getSessionMetadata\<close>: \<open>None\<close> is the \<^verbatim>\<open>null\<close> it returns for a missing session.\<close>

definition getSessionMetadata :: "json \<Rightarrow> string \<Rightarrow> SessionMetadata option action" where
  "getSessionMetadata J sessionId =
     and_then ensureInitialized (\<lambda>_.
       try_catch ''Failed to get session: ''
         (and_then (on_db (select_session sessionId)) (\<lambda>row.
            case row of
              None \<Rightarrow> return_ok None
            | Some r \<Rightarrow>
                (case parse_tags J (row_tags r) of
                   Inl e \<Rightarrow> throw e
                 | Inr tags \<Rightarrow>
                     return_ok (Some \<lparr>md_id = row_id r,
                                      md_createdAt = Some (row_createdAt r),
                                      md_updatedAt = Some (row_updatedAt r),
                                      md_name = or_null (row_name r),
                                      md_workingDirectory = Some (row_workingDirectory r),
                                      md_tags = tags\<rparr>)))))"

text \<open>Object spread of one property: \<^verbatim>\<open>{ ...session, ...metadata }\<close>.\<close>

fun spread :: "'a option \<Rightarrow> 'a property \<Rightarrow> 'a option" where
  "spread old Absent = old"
| "spread old Undefined = None"
| "spread old (Defined v) = Some v"

text \<open>The \<^verbatim>\<open>setClauses\<close> and \<^verbatim>\<open>params\<close> that \<^verbatim>\<open>updateSessionMetadata\<close> builds.\<close>

definition set_clauses :: "json \<Rightarrow> SessionPatch \<Rightarrow> int \<Rightarrow> set_clause list" where
  "set_clauses J metadata updatedAt =
     (case p_name metadata of Defined n \<Rightarrow> [SetName (or_null (Some n))] | _ \<Rightarrow> []) @
     (case p_workingDirectory metadata of Defined w \<Rightarrow> [SetWorkingDirectory w] | _ \<Rightarrow> []) @
     (case p_tags metadata of Defined t \<Rightarrow> [SetTags (tags_json J (Some t))] | _ \<Rightarrow> []) @
     [SetUpdatedAt updatedAt]"

text \<open>
  \<^verbatim>\<open>updateSessionMetadata\<close>. The read of the current session and the throw for a
  missing one stand before the \<^verbatim>\<open>try\<close>.
\<close>

definition updateSessionMetadata :: "json \<Rightarrow> string \<Rightarrow> SessionPatch \<Rightarrow> int \<Rightarrow> SessionMetadata action" where
  "updateSessionMetadata J sessionId metadata now =
     and_then ensureInitialized (\<lambda>_.
     and_then (getSessionMetadata J sessionId) (\<lambda>session.
       case session of
         None \<Rightarrow> throw (Error (''Session not found: '' @ sessionId))
       | Some s \<Rightarrow>
           let updatedSession =
                 \<lparr>md_id = md_id s,
                  md_createdAt = spread (md_createdAt s) (p_createdAt metadata),
                  md_updatedAt = Some now,
                  md_name = spread (md_name s) (p_name metadata),
                  md_workingDirectory = spread (md_workingDirectory s) (p_workingDirectory metadata),
                  md_tags = spread (md_tags s) (p_tags metadata)\<rparr>;
               setClauses = set_clauses J metadata now
           in try_catch ''Failed to update session: ''
                (if length setClauses = 0 then return_ok updatedSession
                 else and_then (on_db (update_session setClauses sessionId)) (\<lambda>_.
                      return_ok updatedSession))))"

text \<open>\<^verbatim>\<open>deleteSession\<close>\<close>

definition deleteSession :: "string \<Rightarrow> bool action" where
  "deleteSession sessionId =
     and_then ensureInitialized (\<lambda>_.
       try_catch ''Failed to delete session: ''
         (and_then (on_db (delete_events sessionId)) (\<lambda>_.
          and_then (on_db (delete_session sessionId)) (\<lambda>changes.
          return_ok (changes > 0)))))"

text \<open>
  The check both \<^verbatim>\<open>saveEvent\<close> and \<^verbatim>\<open>getSessionEvents\<close> start with:
  \<^verbatim>\<open>if (!sessionExists || !sessionExists.existsFlag) throw new Error(`Session not found: ${sessionId}`)\<close>
\<close>

definition require_session :: "string \<Rightarrow> unit action" where
  "require_session sessionId =
     and_then (on_db (select_exists sessionId)) (\<lambda>sessionExists.
       case sessionExists of
         None \<Rightarrow> throw (Error (''Session not found: '' @ sessionId))
       | Some r \<Rightarrow>
           if existsFlag r = 0 then throw (Error (''Session not found: '' @ sessionId))
           else return_ok ())"

text \<open>\<^verbatim>\<open>saveEvent\<close>: \<open>now\<close> is the reading of the clock.\<close>

definition saveEvent :: "json \<Rightarrow> string \<Rightarrow> jsval \<Rightarrow> int \<Rightarrow> unit action" where
  "saveEvent J sessionId event now =
     and_then ensureInitialized (\<lambda>_.
       try_catch ''Failed to save event: ''
         (and_then (require_session sessionId) (\<lambda>_.
            let timestamp = now;
                eventData = stringify J event
            in and_then (on_db (insert_event sessionId timestamp eventData)) (\<lambda>_.
               on_db (update_session [SetUpdatedAt timestamp] sessionId)))))"

text \<open>
  The event \<^verbatim>\<open>getSessionEvents\<close> returns in the place of a record that does not parse:
  \<^verbatim>\<open>{ type: 'system', message: 'Failed to parse event data', timestamp: Date.now() }\<close>
\<close>

definition placeholder :: "int \<Rightarrow> jsval" where
  "placeholder now =
     JObj [(''type'', JStr ''system''),
           (''message'', JStr ''Failed to parse event data''),
           (''timestamp'', JNum now)]"

text \<open>
  The callback of \<^verbatim>\<open>rows.map\<close>; \<open>now\<close> is the reading of the clock while this row is
  decoded.
\<close>

definition decode_row :: "json \<Rightarrow> int \<Rightarrow> string \<Rightarrow> jsval" where
  "decode_row J now eventData =
     (case parse J eventData of Inr v \<Rightarrow> v | Inl e \<Rightarrow> placeholder now)"

text \<open>
  \<^verbatim>\<open>getSessionEvents\<close>: \<open>clock i\<close> is the reading of the clock while row \<open>i\<close> of the
  result is decoded.
\<close>

definition getSessionEvents :: "json \<Rightarrow> string \<Rightarrow> (nat \<Rightarrow> int) \<Rightarrow> jsval list action" where
  "getSessionEvents J sessionId clock =
     and_then ensureInitialized (\<lambda>_.
       try_catch ''Failed to get session events: ''
         (and_then (require_session sessionId) (\<lambda>_.
          and_then (on_db (select_events sessionId)) (\<lambda>rows.
          return_ok (map (\<lambda>(i, eventData). decode_row J (clock i) eventData) (enumerate 0 rows))))))"

text \<open>\<^verbatim>\<open>close\<close>\<close>

definition close :: "provider \<Rightarrow> provider" where
  "close p = (if isOpen (db p) then p\<lparr>db := db_close (db p)\<rparr> else p)"

text \<open>
  \<^verbatim>\<open>await store.saveEvent(sessionId, e1); await store.saveEvent(sessionId, e2); ...\<close>:
  the events with the readings of the clock of their calls.
\<close>

fun saveEvents :: "json \<Rightarrow> string \<Rightarrow> (jsval \<times> int) list \<Rightarrow> unit action" where
  "saveEvents J sessionId [] = return_ok ()"
| "saveEvents J sessionId ((event, now) # rest) =
     and_then (saveEvent J sessionId event now) (\<lambda>_. saveEvents J sessionId rest)"

subsection \<open>States of the store\<close>

text \<open>
  A store that \<^verbatim>\<open>initialize\<close> has set up: the connection is open, both tables exist,
  and the engine performs every statement.
\<close>

definition ready :: "provider \<Rightarrow> bool" where
  "ready p =
     (initialized p \<and> isOpen (db p) \<and> budget (db p) = None \<and>
      sessions (db p) \<noteq> None \<and> events (db p) \<noteq> None)"

text \<open>
  A store the methods can work on: one that is ready, or one that the constructor has
  left closed and that the first method will initialize.
\<close>

definition operational :: "provider \<Rightarrow> bool" where
  "operational p =
     (budget (db p) = None \<and>
      (if initialized p then isOpen (db p) \<and> sessions (db p) \<noteq> None \<and> events (db p) \<noteq> None
       else \<not> isOpen (db p)))"

text \<open>
  The state after \<^verbatim>\<open>new SQLiteStorageProvider(path)\<close> on a path with no database
  file: \<^verbatim>\<open>new DatabaseSync(this.dbPath, { open: false })\<close>, \<^verbatim>\<open>initialized = false\<close>.
\<close>

definition new_database :: database where
  "new_database =
     \<lparr>isOpen = False, wal = False, foreign_keys = False, sessions = None, events = None,
      idx_events_sessionId = False, seq = 0, budget = None\<rparr>"

definition new_provider :: provider where
  "new_provider = \<lparr>db = new_database, initialized = False\<rparr>"

text \<open>Whether the sessions table has a row with this id.\<close>

definition has_session :: "provider \<Rightarrow> string \<Rightarrow> bool" where
  "has_session p sessionId = (find (\<lambda>r. row_id r = sessionId) (session_rows (db p)) \<noteq> None)"

text \<open>The rows of both tables and the counter of the events table.\<close>

definition contents :: "database \<Rightarrow> SessionRow list \<times> EventRow list \<times> nat" where
  "contents d = (session_rows d, event_rows d, seq d)"

subsection \<open>A JSON codec for compact texts\<close>

text \<open>
  An instance of \<open>json\<close> to run the store on: \<^verbatim>\<open>JSON.stringify\<close> on the values of
  \<open>jsval\<close>, and \<^verbatim>\<open>JSON.parse\<close> on texts without white space, with the escaped
  quote and the escaped backslash as the only escapes. The reader takes fuel, one unit for each level of
  nesting; the length of the text is enough.
\<close>

fun escape :: "string \<Rightarrow> string" where
  "escape [] = []"
| "escape (c # cs) =
     (if c = CHR 0x22 \<or> c = CHR 0x5C then CHR 0x5C # c # escape cs else c # escape cs)"

definition quote :: "string \<Rightarrow> string" where
  "quote s = CHR 0x22 # escape s @ [CHR 0x22]"

fun show_val :: "jsval \<Rightarrow> string"
  and show_elems :: "jsval list \<Rightarrow> string"
  and show_members :: "(string \<times> jsval) list \<Rightarrow> string" where
  "show_val JNull = ''null''"
| "show_val (JBool b) = (if b then ''true'' else ''false'')"
| "show_val (JNum n) = show_int n"
| "show_val (JStr s) = quote s"
| "show_val (JArr xs) = ''['' @ show_elems xs @ '']''"
| "show_val (JObj kvs) = ''{'' @ show_members kvs @ ''}''"
| "show_elems [] = []"
| "show_elems [x] = show_val x"
| "show_elems (x # y # ys) = show_val x @ '','' @ show_elems (y # ys)"
| "show_members [] = []"
| "show_members [(k, v)] = quote k @ '':'' @ show_val v"
| "show_members ((k, v) # m # ms) = quote k @ '':'' @ show_val v @ '','' @ show_members (m # ms)"

text \<open>The characters of a string literal up to its closing quote, and the rest.\<close>

fun read_string :: "string \<Rightarrow> (string \<times> string) option" where
  "read_string [] = None"
| "read_string (c # cs) =
     (if c = CHR 0x22 then Some ([], cs)
      else if c = CHR 0x5C then
        (case cs of
           [] \<Rightarrow> None
         | e # r \<Rightarrow>
             if e = CHR 0x22 \<or> e = CHR 0x5C
             then map_option (\<lambda>(s, r'). (e # s, r')) (read_string r)
             else None)
      else map_option (\<lambda>(s, r'). (c # s, r')) (read_string cs))"

definition is_digit :: "char \<Rightarrow> bool" where
  "is_digit c = (c \<in> set ''0123456789'')"

definition digit_val :: "char \<Rightarrow> nat" where
  "digit_val c = length (takeWhile (\<lambda>x. x \<noteq> c) ''0123456789'')"

definition read_nat :: "string \<Rightarrow> (nat \<times> string) option" where
  "read_nat s =
     (let ds = takeWhile is_digit s in
      if ds = [] then None
      else Some (fold (\<lambda>c n. 10 * n + digit_val c) ds 0, dropWhile is_digit s))"

fun read_val :: "nat \<Rightarrow> string \<Rightarrow> (jsval \<times> string) option"
  and read_elems :: "nat \<Rightarrow> string \<Rightarrow> (jsval list \<times> string) option"
  and read_members :: "nat \<Rightarrow> string \<Rightarrow> ((string \<times> jsval) list \<times> string) option" where
  "read_val 0 s = None"
| "read_val (Suc n) s =
     (if take 4 s = ''null'' then Some (JNull, drop 4 s)
      else if take 4 s = ''true'' then Some (JBool True, drop 4 s)
      else if take 5 s = ''false'' then Some (JBool False, drop 5 s)
      else if take 1 s = [CHR 0x22] then map_option (\<lambda>(t, r). (JStr t, r)) (read_string (drop 1 s))
      else if take 2 s = ''[]'' then Some (JArr [], drop 2 s)
      else if take 1 s = ''['' then map_option (\<lambda>(xs, r). (JArr xs, r)) (read_elems n (drop 1 s))
      else if take 2 s = ''{}'' then Some (JObj [], drop 2 s)
      else if take 1 s = ''{'' then map_option (\<lambda>(kvs, r). (JObj kvs, r)) (read_members n (drop 1 s))
      else if take 1 s = ''-'' then map_option (\<lambda>(k, r). (JNum (- int k), r)) (read_nat (drop 1 s))
      else map_option (\<lambda>(k, r). (JNum (int k), r)) (read_nat s))"
| "read_elems 0 s = None"
| "read_elems (Suc n) s =
     (case read_val n s of
        None \<Rightarrow> None
      | Some (x, r) \<Rightarrow>
          if take 1 r = '']'' then Some ([x], drop 1 r)
          else if take 1 r = '','' then map_option (\<lambda>(xs, r'). (x # xs, r')) (read_elems n (drop 1 r))
          else None)"
| "read_members 0 s = None"
| "read_members (Suc n) s =
     (if take 1 s \<noteq> [CHR 0x22] then None
      else case read_string (drop 1 s) of
        None \<Rightarrow> None
      | Some (k, r) \<Rightarrow>
          if take 1 r \<noteq> '':'' then None
          else (case read_val n (drop 1 r) of
                  None \<Rightarrow> None
                | Some (v, r') \<Rightarrow>
                    if take 1 r' = ''}'' then Some ([(k, v)], drop 1 r')
                    else if take 1 r' = '','' then map_option (\<lambda>(kvs, r''). ((k, v) # kvs, r'')) (read_members n (drop 1 r'))
                    else None))"

definition parse_text :: "string \<Rightarrow> js_error + jsval" where
  "parse_text s =
     (case read_val (Suc (length s)) s of
        Some (v, []) \<Rightarrow> Inr v
      | _ \<Rightarrow> Inl (Error ''Unexpected token''))"

definition compact_json :: json where
  "compact_json = \<lparr>stringify = show_val, parse = parse_text\<rparr>"

subsection \<open>Sample stores\<close>

text \<open>
  Two events, a store with the session \<open>s1\<close> created on a new database, and the same
  store after both events have been saved within one millisecond.
\<close>

definition event_a :: jsval where
  "event_a = JObj [(''type'', JStr ''a'')]"

definition event_b :: jsval where
  "event_b = JObj [(''type'', JStr ''b'')]"

definition store1 :: provider where
  "store1 = snd (createSession compact_json
      \<lparr>md_id = ''s1'', md_createdAt = None, md_updatedAt = None, md_name = Some ''demo'',
       md_workingDirectory = Some ''/tmp'', md_tags = Some (JArr [JStr ''x''])\<rparr> 100 101 new_provider)"

definition store2 :: provider where
  "store2 = snd (saveEvents compact_json ''s1'' [(event_a, 110), (event_b, 110)] store1)"

text \<open>
  The store with the session \<open>s1\<close> on an engine that will perform two more statements
  and fail from the third on.
\<close>

definition store1_failing :: provider where
  "store1_failing = store1\<lparr>db := (db store1)\<lparr>budget := Some 2\<rparr>\<rparr>"

text \<open>
  The store with both events on an engine that will perform one more statement and fail
  from the second on.
\<close>

definition store2_failing :: provider where
  "store2_failing = store2\<lparr>db := (db store2)\<lparr>budget := Some 1\<rparr>\<rparr>"

text \<open>
  The store with both events after the text of the first record has been cut short, as a
  damaged file would have it.
\<close>

definition store2_corrupt :: provider where
  "store2_corrupt = store2\<lparr>db := (db store2)\<lparr>events :=
      Some (map (\<lambda>e. if ev_id e = 1 then e\<lparr>ev_eventData := ''{\"type\":''\<rparr> else e)
             (event_rows (db store2)))\<rparr>\<rparr>"

section \<open>Properties\<close>

subsection \<open>The engine and initialization\<close>

lemmas engine_defs = stmt_def engine_ready_def spend_def on_db_def and_then_def try_catch_def
  return_ok_def throw_def Let_def

lemma ensureInitialized_ready: "ready p \<Longrightarrow> ensureInitialized p = (Inr (), p)"
  by (simp add: ready_def ensureInitialized_def)

lemma initialize_closed:
  assumes "\<not> initialized p" "\<not> isOpen (db p)" "budget (db p) = None"
  shows "initialize p =
    (Inr (), \<lparr>db = (db p)\<lparr>isOpen := True, wal := True, foreign_keys := True,
                 sessions := Some (session_rows (db p)), events := Some (event_rows (db p)),
                 idx_events_sessionId := True\<rparr>, initialized = True\<rparr>)"
proof -
  obtain d i where p: "p = \<lparr>db = d, initialized = i\<rparr>" by (cases p) auto
  obtain o1 w f ss es ix sq bu where d: "d = \<lparr>isOpen = o1, wal = w, foreign_keys = f, sessions = ss,
      events = es, idx_events_sessionId = ix, seq = sq, budget = bu\<rparr>" by (cases d) auto
  from assms have a: "\<not> i" "\<not> o1" "bu = None" by (simp_all add: p d)
  show ?thesis
    by (cases ss; cases es)
       (simp_all add: p d a initialize_def and_then_def on_db_def db_open_def spend_def stmt_def
          engine_ready_def exec_journal_mode_wal_def exec_create_sessions_def exec_create_events_def
          exec_create_index_def exec_foreign_keys_on_def session_rows_def event_rows_def)
qed

lemma operational_init:
  assumes "operational p"
  shows "\<exists>p1. ensureInitialized p = (Inr (), p1) \<and> ready p1 \<and>
           session_rows (db p1) = session_rows (db p) \<and>
           event_rows (db p1) = event_rows (db p) \<and> seq (db p1) = seq (db p)"
proof (cases "initialized p")
  case True
  with assms have "ready p" by (simp add: operational_def ready_def)
  then show ?thesis by (simp add: ensureInitialized_ready)
next
  case False
  with assms have c: "\<not> isOpen (db p)" "budget (db p) = None" by (simp_all add: operational_def)
  show ?thesis
    using False
    by (simp add: c ensureInitialized_def initialize_closed [OF False c] ready_def
        session_rows_def event_rows_def)
qed


subsection \<open>What a result says about the steps of a method\<close>

lemma and_then_Inr:
  assumes "and_then m f p = (Inr y, p')"
  obtains x p1 where "m p = (Inr x, p1)" "f x p1 = (Inr y, p')"
  using assms by (auto simp: and_then_def split: prod.splits sum.splits)

lemma and_then_Inl:
  assumes "and_then m f p = (Inl e, p')"
  obtains "m p = (Inl e, p')" | x p1 where "m p = (Inr x, p1)" "f x p1 = (Inl e, p')"
  using assms by (auto simp: and_then_def split: prod.splits sum.splits)

lemma try_catch_Inr: "try_catch pre m p = (Inr y, p') \<Longrightarrow> m p = (Inr y, p')"
  by (auto simp: try_catch_def split: prod.splits sum.splits js_error.splits)

lemma try_catch_Inl:
  assumes "try_catch pre m p = (Inl e, p')"
  obtains msg where "m p = (Inl (Error msg), p')" "e = Error (pre @ msg)"
  using assms by (auto simp: try_catch_def split: prod.splits sum.splits js_error.splits)

lemma on_db_stmt_Inr:
  assumes "on_db (stmt body) p = (Inr x, p')"
  obtains d' where "body (db p) = Inr (x, d')" "p' = p\<lparr>db := spend d'\<rparr>" "isOpen (db p)" "budget (db p) \<noteq> Some 0"
  using assms
  by (auto simp: on_db_def stmt_def engine_ready_def split: prod.splits sum.splits option.splits if_splits)

lemma on_db_stmt_Inl: "on_db (stmt body) p = (Inl e, p') \<Longrightarrow> p' = p"
  by (auto simp: on_db_def stmt_def engine_ready_def split: prod.splits sum.splits option.splits if_splits)

lemma session_rows_spend [simp]: "session_rows (spend d) = session_rows d"
  by (simp add: session_rows_def spend_def)

lemma event_rows_spend [simp]: "event_rows (spend d) = event_rows d"
  by (simp add: event_rows_def spend_def)

lemma seq_spend [simp]: "seq (spend d) = seq d"
  by (simp add: spend_def)

lemma next_event_id_spend [simp]: "next_event_id (spend d) = next_event_id d"
  by (simp add: next_event_id_def)



lemma and_then_keeps:
  assumes "\<And>p. g (snd (m p)) = g p" "\<And>x p. g (snd (f x p)) = g p"
  shows "g (snd (and_then m f p)) = g p"
  using assms(1) [of p] assms(2)
  by (auto simp: and_then_def split: prod.splits sum.splits)

lemma on_db_stmt_keeps:
  assumes "\<And>d x d'. body d = Inr (x, d') \<Longrightarrow> h (spend d') = h d"
  shows "h (db (snd (on_db (stmt body) p))) = h (db p)"
  using assms
  by (auto simp: on_db_def stmt_def split: prod.splits sum.splits option.splits)

lemma contents_spend [simp]: "contents (spend d) = contents d"
  by (simp add: contents_def)

lemma initialize_contents: "contents (db (snd (initialize p))) = contents (db p)"
proof (cases "initialized p")
  case True
  then show ?thesis by (simp add: initialize_def)
next
  case False
  have o: "contents (db (snd (on_db db_open q))) = contents (db q)" for q
    by (simp add: on_db_def db_open_def contents_def session_rows_def event_rows_def spend_def)
  have 1: "contents (db (snd (on_db exec_journal_mode_wal q))) = contents (db q)" for q
    unfolding exec_journal_mode_wal_def
    by (rule on_db_stmt_keeps) (auto simp: contents_def session_rows_def event_rows_def spend_def)
  have 2: "contents (db (snd (on_db exec_create_sessions q))) = contents (db q)" for q
    unfolding exec_create_sessions_def
    by (rule on_db_stmt_keeps) (auto simp: contents_def session_rows_def event_rows_def spend_def split: option.splits)
  have 3: "contents (db (snd (on_db exec_create_events q))) = contents (db q)" for q
    unfolding exec_create_events_def
    by (rule on_db_stmt_keeps) (auto simp: contents_def session_rows_def event_rows_def spend_def split: option.splits)
  have 4: "contents (db (snd (on_db exec_create_index q))) = contents (db q)" for q
    unfolding exec_create_index_def
    by (rule on_db_stmt_keeps) (auto simp: contents_def session_rows_def event_rows_def spend_def split: option.splits)
  have 5: "contents (db (snd (on_db exec_foreign_keys_on q))) = contents (db q)" for q
    unfolding exec_foreign_keys_on_def
    by (rule on_db_stmt_keeps) (auto simp: contents_def session_rows_def event_rows_def spend_def split: option.splits)
  show ?thesis
    using False unfolding initialize_def
    by (simp add: and_then_keeps [where g = "\<lambda>p. contents (db p)"] o 1 2 3 4 5)
qed

lemma ensureInitialized_contents: "contents (db (snd (ensureInitialized p))) = contents (db p)"
  by (simp add: ensureInitialized_def initialize_contents)

lemma has_session_contents:
  "contents (db q) = contents (db p) \<Longrightarrow> has_session q sid = has_session p sid"
  by (simp add: has_session_def contents_def)

lemma ready_tables:
  assumes "ready p"
  shows "sessions (db p) = Some (session_rows (db p))" "events (db p) = Some (event_rows (db p))"
    "isOpen (db p)" "budget (db p) = None" "initialized p"
  using assms by (auto simp: ready_def session_rows_def event_rows_def)

lemma require_session_ready:
  assumes "ready p"
  shows "require_session sid p =
     (if has_session p sid then (Inr (), p) else (Inl (Error (''Session not found: '' @ sid)), p))"
  using ready_tables [OF assms]
  by (auto simp: require_session_def and_then_def on_db_def select_exists_def stmt_def engine_ready_def
      spend_def has_session_def throw_def return_ok_def)

lemma require_session_missing:
  assumes "\<not> has_session q sid"
  shows "\<exists>e q'. require_session sid q = (Inl e, q') \<and> contents (db q') = contents (db q)"
  using assms
  by (auto simp: require_session_def and_then_def on_db_def select_exists_def stmt_def engine_ready_def
      has_session_def throw_def return_ok_def session_rows_def split: option.splits)


subsection \<open>The sample stores, evaluated\<close>

lemma ensureInitialized_new_provider:
  "ensureInitialized new_provider =
     (Inr (), \<lparr>db = \<lparr>isOpen = True, wal = True, foreign_keys = True, sessions = Some [],
        events = Some [], idx_events_sessionId = True, seq = 0, budget = None\<rparr>, initialized = True\<rparr>)"
  by (simp add: ensureInitialized_def initialize_closed new_provider_def new_database_def
      session_rows_def event_rows_def)

lemma store1_eq:
  "store1 = \<lparr>db = \<lparr>isOpen = True, wal = True, foreign_keys = True,
      sessions = Some [\<lparr>row_id = ''s1'', row_createdAt = 100, row_updatedAt = 101,
         row_name = Some ''demo'', row_workingDirectory = ''/tmp'', row_tags = Some ''[\"x\"]''\<rparr>],
      events = Some [], idx_events_sessionId = True, seq = 0, budget = None\<rparr>, initialized = True\<rparr>"
  by (simp add: store1_def createSession_def ensureInitialized_new_provider
      engine_defs insert_session_def or_number_def or_null_def tags_json_def compact_json_def quote_def)

lemma store2_eq:
  "store2 = \<lparr>db = \<lparr>isOpen = True, wal = True, foreign_keys = True,
      sessions = Some [\<lparr>row_id = ''s1'', row_createdAt = 100, row_updatedAt = 110,
         row_name = Some ''demo'', row_workingDirectory = ''/tmp'', row_tags = Some ''[\"x\"]''\<rparr>],
      events = Some [\<lparr>ev_id = 1, ev_sessionId = ''s1'', ev_timestamp = 110, ev_eventData = ''{\"type\":\"a\"}''\<rparr>,
                     \<lparr>ev_id = 2, ev_sessionId = ''s1'', ev_timestamp = 110, ev_eventData = ''{\"type\":\"b\"}''\<rparr>],
      idx_events_sessionId = True, seq = 2, budget = None\<rparr>, initialized = True\<rparr>"
  by (simp add: store2_def store1_eq saveEvent_def ensureInitialized_def require_session_def select_exists_def
      engine_defs insert_event_def update_session_def next_event_id_def event_rows_def session_rows_def
      compact_json_def quote_def event_a_def event_b_def)

subsection \<open>Saving an event for a missing session\<close>

text \<open>
  C1: for every \<open>sessionId\<close> that no row of the sessions table has, \<open>saveEvent\<close>
  throws, creates no event row and no session row, whatever the state of the store; on
  a store the methods can work on, the error it throws is
  \<^verbatim>\<open>Failed to save event: Session not found: <sessionId>\<close>, the way the class reports a
  session that was not found.
\<close>

theorem saveEvent_missing_session:
  assumes "\<not> has_session p sessionId"
  shows "(\<exists>e. fst (saveEvent J sessionId event now p) = Inl e) \<and>
         session_rows (db (snd (saveEvent J sessionId event now p))) = session_rows (db p) \<and>
         event_rows (db (snd (saveEvent J sessionId event now p))) = event_rows (db p) \<and>
         (operational p \<longrightarrow>
            fst (saveEvent J sessionId event now p) =
              Inl (Error (''Failed to save event: Session not found: '' @ sessionId)))"
proof -
  obtain r0 p1 where i: "ensureInitialized p = (r0, p1)" by (cases "ensureInitialized p")
  have c1: "contents (db p1) = contents (db p)"
    using ensureInitialized_contents [of p] i by simp
  then have m: "\<not> has_session p1 sessionId"
    using assms has_session_contents [of p1 p sessionId] by simp
  obtain e q' where q: "require_session sessionId p1 = (Inl e, q')" "contents (db q') = contents (db p1)"
    using require_session_missing [OF m] by blast
  obtain msg where e: "e = Error msg" by (cases e)
  have total: "(\<exists>e. fst (saveEvent J sessionId event now p) = Inl e) \<and>
      contents (db (snd (saveEvent J sessionId event now p))) = contents (db p)"
    using i c1 q e by (cases r0) (auto simp: saveEvent_def and_then_def try_catch_def)
  have "fst (saveEvent J sessionId event now p) =
      Inl (Error (''Failed to save event: Session not found: '' @ sessionId))" if op: "operational p"
  proof -
    obtain p2 where p2: "ensureInitialized p = (Inr (), p2)" "ready p2"
      using operational_init [OF op] by blast
    with i have "r0 = Inr ()" "p2 = p1" by simp_all
    with p2 m show ?thesis
      using i by (simp add: saveEvent_def and_then_def try_catch_def require_session_ready)
  qed
  with total show ?thesis by (simp add: contents_def)
qed

theorem saveEvent_missing_session_witness:
  "\<not> has_session store2 ''s9'' \<and> operational store2 \<and>
   fst (saveEvent compact_json ''s9'' event_a 120 store2) =
     Inl (Error ''Failed to save event: Session not found: s9'') \<and>
   session_rows (db (snd (saveEvent compact_json ''s9'' event_a 120 store2))) = session_rows (db store2) \<and>
   event_rows (db (snd (saveEvent compact_json ''s9'' event_a 120 store2))) = event_rows (db store2) \<and>
   length (event_rows (db store2)) = 2"
proof -
  have h: "\<not> has_session store2 ''s9''"
    by (simp add: has_session_def store2_eq session_rows_def)
  have o: "operational store2"
    by (simp add: operational_def store2_eq)
  show ?thesis
    using saveEvent_missing_session [OF h, of compact_json event_a 120] h o
    by (simp add: store2_eq event_rows_def)
qed

lemma and_then_init:
  assumes "ensureInitialized p = (Inr (), p1)" "ready p1"
  shows "and_then ensureInitialized f p = and_then ensureInitialized f p1"
  by (simp add: and_then_def assms(1) ensureInitialized_ready [OF assms(2)])

lemma lazy_init:
  assumes "operational p"
  obtains p1 where "ensureInitialized p = (Inr (), p1)" "ready p1" "contents (db p1) = contents (db p)"
  using operational_init [OF assms] by (auto simp: contents_def)

subsection \<open>Deleting a session\<close>

lemma initialize_Inr: "initialize p = (Inr u, p1) \<Longrightarrow> initialized p1"
  by (auto simp: initialize_def elim!: and_then_Inr split: if_splits)

lemma ensureInitialized_Inr: "ensureInitialized p = (Inr u, p1) \<Longrightarrow> initialized p1"
  by (auto simp: ensureInitialized_def dest: initialize_Inr split: if_splits)

lemma ensureInitialized_initialized: "initialized p \<Longrightarrow> ensureInitialized p = (Inr (), p)"
  by (simp add: ensureInitialized_def)

lemma isOpen_spend [simp]: "isOpen (spend d) = isOpen d"
  by (simp add: spend_def)

lemma sessions_spend [simp]: "sessions (spend d) = sessions d"
  by (simp add: spend_def)

lemma events_spend [simp]: "events (spend d) = events d"
  by (simp add: spend_def)

lemma foreign_keys_spend [simp]: "foreign_keys (spend d) = foreign_keys d"
  by (simp add: spend_def)

lemma find_filter_None: "find (\<lambda>r. f r = k) (filter (\<lambda>r. f r \<noteq> k) rs) = None"
  by (induction rs) auto

lemma require_session_absent:
  assumes "isOpen (db q)" "budget (db q) \<noteq> Some 0" "sessions (db q) \<noteq> None" "\<not> has_session q sid"
  shows "fst (require_session sid q) = Inl (Error (''Session not found: '' @ sid))"
  using assms
  by (auto simp: require_session_def and_then_def on_db_def select_exists_def stmt_def engine_ready_def
      has_session_def throw_def session_rows_def split: option.splits)

lemma on_db_stmt_InrD:
  assumes "on_db (stmt body) p = (Inr x, p')"
  shows "\<exists>d'. body (db p) = Inr (x, d') \<and> p' = p\<lparr>db := spend d'\<rparr> \<and> isOpen (db p) \<and> budget (db p) \<noteq> Some 0"
  using assms by (rule on_db_stmt_Inr) blast

text \<open>
  After a \<open>deleteSession\<close> that returns (with \<open>true\<close> or \<open>false\<close>), from any state of
  the store, the sessions table has no row with that id and the events table no row with
  that \<open>sessionId\<close>, every other row of both tables is as it was, the value returned
  says whether the session existed, and \<open>getSessionEvents\<close> for the id throws
  \<^verbatim>\<open>Failed to get session events: Session not found: <sessionId>\<close> as long as the engine
  still performs its statement.
\<close>

lemma deleteSession_Inr:
  assumes "deleteSession sessionId p = (Inr b, p')"
  shows "\<not> has_session p' sessionId \<and>
         filter (\<lambda>e. ev_sessionId e = sessionId) (event_rows (db p')) = [] \<and>
         session_rows (db p') = filter (\<lambda>r. row_id r \<noteq> sessionId) (session_rows (db p)) \<and>
         event_rows (db p') = filter (\<lambda>e. ev_sessionId e \<noteq> sessionId) (event_rows (db p)) \<and>
         b = has_session p sessionId \<and>
         (budget (db p') \<noteq> Some 0 \<longrightarrow>
            fst (getSessionEvents J sessionId clock p') =
              Inl (Error (''Failed to get session events: Session not found: '' @ sessionId)))"
proof -
  from assms obtain u p1 where i: "ensureInitialized p = (Inr u, p1)"
    and t: "try_catch ''Failed to delete session: ''
         (and_then (on_db (delete_events sessionId)) (\<lambda>_.
          and_then (on_db (delete_session sessionId)) (\<lambda>changes.
          return_ok (changes > 0)))) p1 = (Inr b, p')"
    unfolding deleteSession_def by (erule and_then_Inr)
  have c1: "contents (db p1) = contents (db p)"
    using ensureInitialized_contents [of p] i by simp
  have i1: "initialized p1" using i by (rule ensureInitialized_Inr)
  from try_catch_Inr [OF t] obtain v p2 where
    e: "on_db (delete_events sessionId) p1 = (Inr v, p2)"
    and r: "and_then (on_db (delete_session sessionId)) (\<lambda>changes. return_ok (changes > 0)) p2 = (Inr b, p')"
    by (erule and_then_Inr)
  from r obtain n p3 where
    s: "on_db (delete_session sessionId) p2 = (Inr n, p3)" and b: "return_ok (n > 0) p3 = (Inr b, p')"
    by (erule and_then_Inr)
  from on_db_stmt_InrD [OF e [unfolded delete_events_def]] obtain es where es: "events (db p1) = Some es"
    and p2: "p2 = p1\<lparr>db := spend ((db p1)\<lparr>events := Some (filter (\<lambda>e. ev_sessionId e \<noteq> sessionId) es)\<rparr>)\<rparr>"
    by (auto split: option.splits)
  from on_db_stmt_InrD [OF s [unfolded delete_session_def]] obtain rs where rs: "sessions (db p2) = Some rs" and o: "isOpen (db p2)"
    and p3: "p3 = p2\<lparr>db := spend ((db p2)\<lparr>sessions := Some (filter (\<lambda>r. row_id r \<noteq> sessionId) rs),
                events := (if foreign_keys (db p2) \<and> (\<exists>r \<in> set rs. row_id r = sessionId)
                           then map_option (filter (\<lambda>e. ev_sessionId e \<noteq> sessionId)) (events (db p2))
                           else events (db p2))\<rparr>)\<rparr>"
    and n: "n = length (filter (\<lambda>r. row_id r = sessionId) rs)"
    by (auto split: option.splits)
  from b have p': "p' = p3" and b': "b = (n > 0)" by (simp_all add: return_ok_def)
  have srp: "session_rows (db p) = rs" and erp: "event_rows (db p) = es"
    using c1 rs es p2 by (simp_all add: contents_def session_rows_def event_rows_def)
  have sr: "session_rows (db p') = filter (\<lambda>r. row_id r \<noteq> sessionId) rs"
    by (simp add: p' p3 session_rows_def)
  have er: "event_rows (db p') = filter (\<lambda>e. ev_sessionId e \<noteq> sessionId) es"
    by (simp add: p' p3 p2 event_rows_def)
  have gone: "\<not> has_session p' sessionId"
    by (simp add: has_session_def sr find_filter_None)
  have bb: "b = has_session p sessionId"
    by (auto simp: b' n has_session_def srp find_None_iff filter_empty_conv)
  have ev: "filter (\<lambda>e. ev_sessionId e = sessionId) (event_rows (db p')) = []"
    by (simp add: er filter_empty_conv)
  have "fst (getSessionEvents J sessionId clock p') =
      Inl (Error (''Failed to get session events: Session not found: '' @ sessionId))"
    if bu: "budget (db p') \<noteq> Some 0"
  proof -
    have "initialized p'" "isOpen (db p')" "sessions (db p') \<noteq> None"
      using i1 o by (simp_all add: p' p3 p2)
    then show ?thesis
      using require_session_absent [OF _ bu _ gone]
      by (cases "require_session sessionId p'")
         (simp add: getSessionEvents_def ensureInitialized_initialized and_then_def try_catch_def)
  qed
  with gone ev sr er bb srp erp show ?thesis by simp
qed


text \<open>
  A \<open>deleteSession\<close> that throws leaves every session row in place; the events of the
  session are either all in place or deleted already, since the two statements run
  without a transaction.
\<close>

lemma deleteSession_Inl:
  assumes "deleteSession sid p = (Inl err, p')"
  shows "session_rows (db p') = session_rows (db p) \<and>
    (event_rows (db p') = event_rows (db p) \<or>
     event_rows (db p') = filter (\<lambda>e. ev_sessionId e \<noteq> sid) (event_rows (db p)))"
proof -
  from assms consider (init) "ensureInitialized p = (Inl err, p')"
    | (body) v p1 where "ensureInitialized p = (Inr v, p1)"
        "try_catch ''Failed to delete session: ''
         (and_then (on_db (delete_events sid)) (\<lambda>_.
          and_then (on_db (delete_session sid)) (\<lambda>changes.
          return_ok (changes > 0)))) p1 = (Inl err, p')"
    unfolding deleteSession_def by (erule and_then_Inl) blast+
  then show ?thesis
  proof cases
    case init
    then have "contents (db p') = contents (db p)"
      using ensureInitialized_contents [of p] by simp
    then show ?thesis by (simp add: contents_def)
  next
    case body
    have c1: "contents (db p1) = contents (db p)"
      using ensureInitialized_contents [of p] body(1) by simp
    from body(2) obtain msg where
      m: "and_then (on_db (delete_events sid)) (\<lambda>_.
          and_then (on_db (delete_session sid)) (\<lambda>changes.
          return_ok (changes > 0))) p1 = (Inl (Error msg), p')"
      by (rule try_catch_Inl)
    then consider (ev) "on_db (delete_events sid) p1 = (Inl (Error msg), p')"
      | (se) u p2 where "on_db (delete_events sid) p1 = (Inr u, p2)"
          "and_then (on_db (delete_session sid)) (\<lambda>changes. return_ok (changes > 0)) p2 =
             (Inl (Error msg), p')"
      by (erule and_then_Inl) blast+
    then show ?thesis
    proof cases
      case ev
      then have "p' = p1" unfolding delete_events_def by (rule on_db_stmt_Inl)
      with c1 show ?thesis by (simp add: contents_def)
    next
      case se
      from se(2) have "on_db (delete_session sid) p2 = (Inl (Error msg), p')"
        by (auto elim!: and_then_Inl simp: return_ok_def)
      then have p': "p' = p2" unfolding delete_session_def by (rule on_db_stmt_Inl)
      from on_db_stmt_InrD [OF se(1) [unfolded delete_events_def]] obtain es where
        es: "events (db p1) = Some es"
        and p2: "p2 = p1\<lparr>db := spend ((db p1)\<lparr>events := Some (filter (\<lambda>e. ev_sessionId e \<noteq> sid) es)\<rparr>)\<rparr>"
        by (auto split: option.splits)
      have "event_rows (db p) = es" "session_rows (db p1) = session_rows (db p)"
        using c1 es by (simp_all add: contents_def event_rows_def)
      then show ?thesis
        by (simp add: p' p2 event_rows_def session_rows_def)
    qed
  qed
qed

lemma deleteSession_ready:
  assumes "ready p"
  shows "fst (deleteSession sid p) = Inr (has_session p sid)"
proof -
  from assms obtain rs es where t: "sessions (db p) = Some rs" "events (db p) = Some es"
    and o: "isOpen (db p)" "budget (db p) = None"
    by (auto simp: ready_def)
  have r: "session_rows (db p) = rs"
    by (simp add: session_rows_def t)
  have h: "has_session p sid \<longleftrightarrow> 0 < length (filter (\<lambda>r. row_id r = sid) rs)"
    by (auto simp: has_session_def find_None_iff r filter_empty_conv)
  show ?thesis
    by (simp add: deleteSession_def ensureInitialized_ready [OF assms] and_then_def try_catch_def
        on_db_def delete_events_def delete_session_def stmt_def engine_ready_def t o spend_def
        return_ok_def h)
qed

lemma deleteSession_operational:
  assumes "operational p"
  shows "fst (deleteSession sid p) = Inr (has_session p sid)"
proof -
  from assms obtain p1 where p1: "ensureInitialized p = (Inr (), p1)" "ready p1"
    "contents (db p1) = contents (db p)"
    by (rule lazy_init)
  have "deleteSession sid p = deleteSession sid p1"
    unfolding deleteSession_def by (rule and_then_init [OF p1(1,2)])
  then show ?thesis
    using deleteSession_ready [OF p1(2), of sid] has_session_contents [OF p1(3), of sid] by simp
qed

text \<open>
  C2, amended to what the class does: on a store the methods can work on,
  \<open>deleteSession\<close> returns, with \<open>true\<close> when the session existed. Whenever
  \<open>deleteSession\<close> returns, from any state, the session and all its events are gone: the
  sessions table has no row with the id, the events table no row with that
  \<open>sessionId\<close>, every other row of both tables is as it was, and \<open>getSessionEvents\<close> for
  the id throws \<^verbatim>\<open>Failed to get session events: Session not found: <sessionId>\<close> as long
  as the engine still performs its statement. The two deletes are two statements and no
  transaction holds them together: whenever \<open>deleteSession\<close> throws, every session row is
  in place, and the events of the session are either all in place or deleted already,
  while the session stays.
\<close>

theorem deleteSession_two_deletes:
  "(operational p \<longrightarrow> fst (deleteSession sessionId p) = Inr (has_session p sessionId)) \<and>
   (\<forall>b. fst (deleteSession sessionId p) = Inr b \<longrightarrow>
      \<not> has_session (snd (deleteSession sessionId p)) sessionId \<and>
      filter (\<lambda>e. ev_sessionId e = sessionId) (event_rows (db (snd (deleteSession sessionId p)))) = [] \<and>
      session_rows (db (snd (deleteSession sessionId p))) =
        filter (\<lambda>r. row_id r \<noteq> sessionId) (session_rows (db p)) \<and>
      event_rows (db (snd (deleteSession sessionId p))) =
        filter (\<lambda>e. ev_sessionId e \<noteq> sessionId) (event_rows (db p)) \<and>
      b = has_session p sessionId \<and>
      (budget (db (snd (deleteSession sessionId p))) \<noteq> Some 0 \<longrightarrow>
         fst (getSessionEvents J sessionId clock (snd (deleteSession sessionId p))) =
           Inl (Error (''Failed to get session events: Session not found: '' @ sessionId)))) \<and>
   ((\<exists>err. fst (deleteSession sessionId p) = Inl err) \<longrightarrow>
      session_rows (db (snd (deleteSession sessionId p))) = session_rows (db p) \<and>
      (event_rows (db (snd (deleteSession sessionId p))) = event_rows (db p) \<or>
       event_rows (db (snd (deleteSession sessionId p))) =
         filter (\<lambda>e. ev_sessionId e \<noteq> sessionId) (event_rows (db p))))"
proof -
  obtain r p' where s: "deleteSession sessionId p = (r, p')"
    by (cases "deleteSession sessionId p")
  show ?thesis
  proof (cases r)
    case (Inl err)
    with s deleteSession_Inl [of sessionId p err p'] deleteSession_operational [of p sessionId]
    show ?thesis by auto
  next
    case (Inr b)
    with s deleteSession_Inr [of sessionId p b p' J clock] deleteSession_operational [of p sessionId]
    show ?thesis by auto
  qed
qed

lemma deleteSession_store2:
  "deleteSession ''s1'' store2 =
     (Inr True, \<lparr>db = \<lparr>isOpen = True, wal = True, foreign_keys = True, sessions = Some [],
        events = Some [], idx_events_sessionId = True, seq = 2, budget = None\<rparr>, initialized = True\<rparr>)"
  by (simp add: deleteSession_def store2_eq ensureInitialized_def engine_defs delete_events_def
      delete_session_def)

lemma store2_failing_eq:
  "store2_failing = \<lparr>db = \<lparr>isOpen = True, wal = True, foreign_keys = True,
      sessions = Some [\<lparr>row_id = ''s1'', row_createdAt = 100, row_updatedAt = 110,
         row_name = Some ''demo'', row_workingDirectory = ''/tmp'', row_tags = Some ''[\"x\"]''\<rparr>],
      events = Some [\<lparr>ev_id = 1, ev_sessionId = ''s1'', ev_timestamp = 110, ev_eventData = ''{\"type\":\"a\"}''\<rparr>,
                     \<lparr>ev_id = 2, ev_sessionId = ''s1'', ev_timestamp = 110, ev_eventData = ''{\"type\":\"b\"}''\<rparr>],
      idx_events_sessionId = True, seq = 2, budget = Some 1\<rparr>, initialized = True\<rparr>"
  by (simp add: store2_failing_def store2_eq)

lemma deleteSession_store2_failing:
  "deleteSession ''s1'' store2_failing =
     (Inl (Error ''Failed to delete session: disk I/O error''),
      \<lparr>db = \<lparr>isOpen = True, wal = True, foreign_keys = True,
        sessions = Some [\<lparr>row_id = ''s1'', row_createdAt = 100, row_updatedAt = 110,
           row_name = Some ''demo'', row_workingDirectory = ''/tmp'', row_tags = Some ''[\"x\"]''\<rparr>],
        events = Some [], idx_events_sessionId = True, seq = 2, budget = Some 0\<rparr>,
       initialized = True\<rparr>)"
  by (simp add: deleteSession_def store2_failing_eq ensureInitialized_def engine_defs delete_events_def
      delete_session_def)

text \<open>
  C2 as stated fails: the session and its events do not go as one atomic unit. On an
  engine that performs one more statement and then fails, \<open>deleteSession\<close> for the
  existing session \<open>s1\<close> throws after the first delete, and nothing is rolled back: both
  events of the session are gone and the session is still there, one side deleted
  without the other.
\<close>

theorem deleteSession_not_atomic_counterexample:
  "has_session store2_failing ''s1'' \<and>
   map ev_sessionId (event_rows (db store2_failing)) = [''s1'', ''s1''] \<and>
   fst (deleteSession ''s1'' store2_failing) =
     Inl (Error ''Failed to delete session: disk I/O error'') \<and>
   has_session (snd (deleteSession ''s1'' store2_failing)) ''s1'' \<and>
   event_rows (db (snd (deleteSession ''s1'' store2_failing))) = []"
  unfolding deleteSession_store2_failing
  by (simp add: store2_failing_eq has_session_def event_rows_def session_rows_def)

theorem deleteSession_two_deletes_witness:
  "operational store2 \<and> has_session store2 ''s1'' \<and>
   length (event_rows (db store2)) = 2 \<and>
   fst (deleteSession ''s1'' store2) = Inr True \<and>
   \<not> has_session (snd (deleteSession ''s1'' store2)) ''s1'' \<and>
   event_rows (db (snd (deleteSession ''s1'' store2))) = [] \<and>
   budget (db (snd (deleteSession ''s1'' store2))) \<noteq> Some 0 \<and>
   fst (getSessionEvents compact_json ''s1'' (\<lambda>i. 0) (snd (deleteSession ''s1'' store2))) =
     Inl (Error ''Failed to get session events: Session not found: s1'') \<and>
   (\<exists>err. fst (deleteSession ''s1'' store2_failing) = Inl err) \<and>
   session_rows (db (snd (deleteSession ''s1'' store2_failing))) = session_rows (db store2_failing) \<and>
   event_rows (db (snd (deleteSession ''s1'' store2_failing))) =
     filter (\<lambda>e. ev_sessionId e \<noteq> ''s1'') (event_rows (db store2_failing))"
proof -
  have o: "operational store2" and h: "has_session store2 ''s1''"
    and l: "length (event_rows (db store2)) = 2"
    and a: "filter (\<lambda>e. ev_sessionId e \<noteq> ''s1'') (event_rows (db store2)) = []"
    by (simp_all add: operational_def has_session_def session_rows_def event_rows_def store2_eq)
  have b: "budget (db (snd (deleteSession ''s1'' store2))) \<noteq> Some 0"
    by (simp add: deleteSession_store2)
  have f: "\<exists>err. fst (deleteSession ''s1'' store2_failing) = Inl err"
    by (simp add: deleteSession_store2_failing)
  have g: "event_rows (db (snd (deleteSession ''s1'' store2_failing))) \<noteq> event_rows (db store2_failing)"
    unfolding deleteSession_store2_failing by (simp add: store2_failing_eq event_rows_def)
  note w = deleteSession_two_deletes [of store2 "''s1''" compact_json "\<lambda>i. 0"]
  note x = deleteSession_two_deletes [of store2_failing "''s1''" compact_json "\<lambda>i. 0"]
  from w o h have 1: "fst (deleteSession ''s1'' store2) = Inr True"
    by simp
  from w 1 b have 2: "\<not> has_session (snd (deleteSession ''s1'' store2)) ''s1''"
    and 3: "event_rows (db (snd (deleteSession ''s1'' store2))) =
        filter (\<lambda>e. ev_sessionId e \<noteq> ''s1'') (event_rows (db store2))"
    and 4: "fst (getSessionEvents compact_json ''s1'' (\<lambda>i. 0) (snd (deleteSession ''s1'' store2))) =
     Inl (Error (''Failed to get session events: Session not found: '' @ ''s1''))"
    by blast+
  from x f g have 5: "session_rows (db (snd (deleteSession ''s1'' store2_failing))) =
      session_rows (db store2_failing)"
    and 6: "event_rows (db (snd (deleteSession ''s1'' store2_failing))) =
     filter (\<lambda>e. ev_sessionId e \<noteq> ''s1'') (event_rows (db store2_failing))"
    by blast+
  from 4 have 7: "fst (getSessionEvents compact_json ''s1'' (\<lambda>i. 0) (snd (deleteSession ''s1'' store2))) =
     Inl (Error ''Failed to get session events: Session not found: s1'')"
    by simp
  show ?thesis
    using o h l 1 2 b 7 f 5 6 by (simp add: 3 a)
qed

subsection \<open>Saving an event\<close>

lemma require_session_contents:
  "contents (db (snd (require_session sid q))) = contents (db q)"
  by (auto simp: require_session_def and_then_def on_db_def select_exists_def stmt_def
      throw_def return_ok_def split: option.splits sum.splits prod.splits)

lemma require_session_Inr:
  assumes "require_session sid q = (Inr u, q')"
  shows "has_session q sid \<and> q' = q\<lparr>db := spend (db q)\<rparr> \<and> isOpen (db q)"
  using assms
  by (auto simp: require_session_def and_then_def on_db_def select_exists_def stmt_def engine_ready_def
      throw_def return_ok_def has_session_def session_rows_def
      split: option.splits sum.splits prod.splits if_splits)

lemma has_session_iff: "has_session p sid \<longleftrightarrow> (\<exists>r \<in> set (session_rows (db p)). row_id r = sid)"
  by (auto simp: has_session_def find_None_iff)

lemma saveEvent_ready:
  assumes "ready p" "has_session p sid"
  shows "saveEvent J sid e t p =
     (Inr (), p\<lparr>db := (db p)\<lparr>
        events := Some (event_rows (db p) @
          [\<lparr>ev_id = next_event_id (db p), ev_sessionId = sid, ev_timestamp = t,
            ev_eventData = stringify J e\<rparr>]),
        seq := next_event_id (db p),
        sessions := Some (map (\<lambda>r. if row_id r = sid then r\<lparr>row_updatedAt := t\<rparr> else r)
                            (session_rows (db p)))\<rparr>\<rparr>)"
proof -
  from assms(1) obtain rs es where t: "sessions (db p) = Some rs" "events (db p) = Some es"
    and o: "isOpen (db p)" "budget (db p) = None"
    by (auto simp: ready_def)
  have r: "session_rows (db p) = rs" "event_rows (db p) = es"
    by (simp_all add: session_rows_def event_rows_def t)
  have fk: "\<exists>r \<in> set rs. row_id r = sid"
    using assms(2) by (simp add: has_session_iff r)
  have n: "next_event_id (db p\<lparr>budget := None\<rparr>) = next_event_id (db p)"
    by (simp add: next_event_id_def event_rows_def)
  show ?thesis
    using fk
    by (simp add: saveEvent_def ensureInitialized_ready [OF assms(1)] and_then_def try_catch_def
        require_session_ready [OF assms(1)] assms(2) on_db_def insert_event_def update_session_def
        stmt_def engine_ready_def t o r n spend_def Let_def)
qed


lemma next_event_id_contents:
  "contents d' = contents d \<Longrightarrow> next_event_id d' = next_event_id d"
  by (simp add: contents_def next_event_id_def)

lemma saveEvent_operational:
  assumes "operational p" "has_session p sid"
  shows "fst (saveEvent J sid e t p) = Inr ()"
proof -
  from assms(1) obtain p1 where p1: "ensureInitialized p = (Inr (), p1)" "ready p1"
    "contents (db p1) = contents (db p)"
    by (rule lazy_init)
  have "has_session p1 sid"
    using has_session_contents [OF p1(3)] assms(2) by simp
  from saveEvent_ready [OF p1(2) this, of J e t]
  show ?thesis
    unfolding saveEvent_def and_then_init [OF p1(1,2)] by simp
qed

lemma saveEvent_Inr:
  assumes "saveEvent J sid e t p = (Inr u, p')"
  shows "has_session p sid \<and>
    event_rows (db p') = event_rows (db p) @
      [\<lparr>ev_id = next_event_id (db p), ev_sessionId = sid, ev_timestamp = t, ev_eventData = stringify J e\<rparr>] \<and>
    session_rows (db p') =
      map (\<lambda>r. if row_id r = sid then r\<lparr>row_updatedAt := t\<rparr> else r) (session_rows (db p))"
proof -
  from assms obtain v p1 where i: "ensureInitialized p = (Inr v, p1)"
    and t: "try_catch ''Failed to save event: ''
         (and_then (require_session sid) (\<lambda>_.
            let timestamp = t; eventData = stringify J e
            in and_then (on_db (insert_event sid timestamp eventData)) (\<lambda>_.
               on_db (update_session [SetUpdatedAt timestamp] sid)))) p1 = (Inr u, p')"
    unfolding saveEvent_def by (erule and_then_Inr)
  have c1: "contents (db p1) = contents (db p)"
    using ensureInitialized_contents [of p] i by simp
  from try_catch_Inr [OF t] have "and_then (require_session sid) (\<lambda>_.
            and_then (on_db (insert_event sid t (stringify J e))) (\<lambda>_.
               on_db (update_session [SetUpdatedAt t] sid))) p1 = (Inr u, p')"
    by (simp add: Let_def)
  then obtain w p2 where
    q: "require_session sid p1 = (Inr w, p2)"
    and r: "and_then (on_db (insert_event sid t (stringify J e))) (\<lambda>_.
               on_db (update_session [SetUpdatedAt t] sid)) p2 = (Inr u, p')"
    by (erule and_then_Inr)
  from require_session_Inr [OF q] have h1: "has_session p1 sid" and p2: "p2 = p1\<lparr>db := spend (db p1)\<rparr>"
    by simp_all
  have c2: "contents (db p2) = contents (db p)"
    by (simp add: p2 c1)
  from r obtain x p3 where
    ins: "on_db (insert_event sid t (stringify J e)) p2 = (Inr x, p3)"
    and upd: "on_db (update_session [SetUpdatedAt t] sid) p3 = (Inr u, p')"
    by (erule and_then_Inr)
  from on_db_stmt_InrD [OF ins [unfolded insert_event_def]] obtain es where
    es: "events (db p2) = Some es"
    and p3: "p3 = p2\<lparr>db := spend ((db p2)\<lparr>events := Some (es @
               [\<lparr>ev_id = next_event_id (db p2), ev_sessionId = sid, ev_timestamp = t,
                 ev_eventData = stringify J e\<rparr>]), seq := next_event_id (db p2)\<rparr>)\<rparr>"
    by (auto split: option.splits if_splits)
  from on_db_stmt_InrD [OF upd [unfolded update_session_def]] obtain rs where
    rs: "sessions (db p3) = Some rs"
    and p': "p' = p3\<lparr>db := spend ((db p3)\<lparr>sessions :=
               Some (map (\<lambda>r. if row_id r = sid then fold assign [SetUpdatedAt t] r else r) rs)\<rparr>)\<rparr>"
    by (auto split: option.splits)
  have e2: "event_rows (db p) = es" "session_rows (db p) = rs"
    using c2 es rs by (simp_all add: contents_def event_rows_def session_rows_def p3)
  have "event_rows (db p') = es @
      [\<lparr>ev_id = next_event_id (db p), ev_sessionId = sid, ev_timestamp = t, ev_eventData = stringify J e\<rparr>]"
    by (simp add: p' p3 event_rows_def next_event_id_contents [OF c2])
  moreover have "session_rows (db p') =
      map (\<lambda>r. if row_id r = sid then r\<lparr>row_updatedAt := t\<rparr> else r) rs"
    by (simp add: p' session_rows_def)
  moreover have "has_session p sid"
    using h1 has_session_contents [OF c1] by simp
  ultimately show ?thesis by (simp add: e2)
qed

lemma saveEvent_Inl:
  assumes "saveEvent J sid e t p = (Inl err, p')"
  shows "session_rows (db p') = session_rows (db p) \<and>
    (event_rows (db p') = event_rows (db p) \<or>
     event_rows (db p') = event_rows (db p) @
      [\<lparr>ev_id = next_event_id (db p), ev_sessionId = sid, ev_timestamp = t, ev_eventData = stringify J e\<rparr>])"
proof -
  from assms consider (init) "ensureInitialized p = (Inl err, p')"
    | (body) v p1 where "ensureInitialized p = (Inr v, p1)"
        "try_catch ''Failed to save event: ''
         (and_then (require_session sid) (\<lambda>_.
            let timestamp = t; eventData = stringify J e
            in and_then (on_db (insert_event sid timestamp eventData)) (\<lambda>_.
               on_db (update_session [SetUpdatedAt timestamp] sid)))) p1 = (Inl err, p')"
    unfolding saveEvent_def by (erule and_then_Inl) blast+
  then show ?thesis
  proof cases
    case init
    then have "contents (db p') = contents (db p)"
      using ensureInitialized_contents [of p] by simp
    then show ?thesis by (simp add: contents_def)
  next
    case body
    have c1: "contents (db p1) = contents (db p)"
      using ensureInitialized_contents [of p] body(1) by simp
    from body(2) obtain msg where
      "(and_then (require_session sid) (\<lambda>_.
            let timestamp = t; eventData = stringify J e
            in and_then (on_db (insert_event sid timestamp eventData)) (\<lambda>_.
               on_db (update_session [SetUpdatedAt timestamp] sid)))) p1 = (Inl (Error msg), p')"
      by (rule try_catch_Inl)
    then have
      m: "and_then (require_session sid) (\<lambda>_.
            and_then (on_db (insert_event sid t (stringify J e))) (\<lambda>_.
               on_db (update_session [SetUpdatedAt t] sid))) p1 = (Inl (Error msg), p')"
      by (simp add: Let_def)
    then consider (req) "require_session sid p1 = (Inl (Error msg), p')"
      | (wr) w p2 where "require_session sid p1 = (Inr w, p2)"
          "and_then (on_db (insert_event sid t (stringify J e))) (\<lambda>_.
               on_db (update_session [SetUpdatedAt t] sid)) p2 = (Inl (Error msg), p')"
      by (erule and_then_Inl) blast+
    then show ?thesis
    proof cases
      case req
      then have "contents (db p') = contents (db p1)"
        using require_session_contents [of sid p1] by simp
      with c1 show ?thesis by (simp add: contents_def)
    next
      case wr
      have c2: "contents (db p2) = contents (db p)"
        using require_session_contents [of sid p1] wr(1) c1 by simp
      from wr(2) consider (ins) "on_db (insert_event sid t (stringify J e)) p2 = (Inl (Error msg), p')"
        | (upd) x p3 where "on_db (insert_event sid t (stringify J e)) p2 = (Inr x, p3)"
            "on_db (update_session [SetUpdatedAt t] sid) p3 = (Inl (Error msg), p')"
        by (erule and_then_Inl) blast+
      then show ?thesis
      proof cases
        case ins
        then have "p' = p2" unfolding insert_event_def by (rule on_db_stmt_Inl)
        with c2 show ?thesis by (simp add: contents_def)
      next
        case upd
        from upd(2) have p': "p' = p3" unfolding update_session_def by (rule on_db_stmt_Inl)
        from on_db_stmt_InrD [OF upd(1) [unfolded insert_event_def]] obtain es where
          es: "events (db p2) = Some es"
          and p3: "p3 = p2\<lparr>db := spend ((db p2)\<lparr>events := Some (es @
               [\<lparr>ev_id = next_event_id (db p2), ev_sessionId = sid, ev_timestamp = t,
                 ev_eventData = stringify J e\<rparr>]), seq := next_event_id (db p2)\<rparr>)\<rparr>"
          by (auto split: option.splits if_splits)
        have "event_rows (db p) = es" "session_rows (db p2) = session_rows (db p)"
          using c2 es by (simp_all add: contents_def event_rows_def)
        then show ?thesis
          by (simp add: p' p3 event_rows_def session_rows_def next_event_id_contents [OF c2])
      qed
    qed
  qed
qed


text \<open>
  C5, amended to what the class does: on a store the methods can work on, \<open>saveEvent\<close> for an
  existing session returns; whenever \<open>saveEvent\<close> returns, from any state, the session
  existed, the event row has been appended with the timestamp \<open>now\<close>, and the
  \<open>updatedAt\<close> of the session is that same timestamp. The two writes are two statements
  and no transaction holds them together: whenever \<open>saveEvent\<close> throws, the session
  rows are as they were, and the events table is either as it was or holds the new row
  already, without the matching \<open>updatedAt\<close>.
\<close>

theorem saveEvent_two_writes:
  "(operational p \<and> has_session p sessionId \<longrightarrow> fst (saveEvent J sessionId event now p) = Inr ()) \<and>
   (fst (saveEvent J sessionId event now p) = Inr () \<longrightarrow>
      has_session p sessionId \<and>
      event_rows (db (snd (saveEvent J sessionId event now p))) = event_rows (db p) @
        [\<lparr>ev_id = next_event_id (db p), ev_sessionId = sessionId, ev_timestamp = now,
          ev_eventData = stringify J event\<rparr>] \<and>
      session_rows (db (snd (saveEvent J sessionId event now p))) =
        map (\<lambda>r. if row_id r = sessionId then r\<lparr>row_updatedAt := now\<rparr> else r) (session_rows (db p))) \<and>
   ((\<exists>err. fst (saveEvent J sessionId event now p) = Inl err) \<longrightarrow>
      session_rows (db (snd (saveEvent J sessionId event now p))) = session_rows (db p) \<and>
      (event_rows (db (snd (saveEvent J sessionId event now p))) = event_rows (db p) \<or>
       event_rows (db (snd (saveEvent J sessionId event now p))) = event_rows (db p) @
        [\<lparr>ev_id = next_event_id (db p), ev_sessionId = sessionId, ev_timestamp = now,
          ev_eventData = stringify J event\<rparr>]))"
proof -
  obtain r p' where s: "saveEvent J sessionId event now p = (r, p')"
    by (cases "saveEvent J sessionId event now p")
  show ?thesis
  proof (cases r)
    case (Inl err)
    with s saveEvent_Inl [of J sessionId event now p err p'] saveEvent_operational [of p sessionId J event now]
    show ?thesis by auto
  next
    case (Inr u)
    with s saveEvent_Inr [of J sessionId event now p u p'] saveEvent_operational [of p sessionId J event now]
    show ?thesis by auto
  qed
qed

lemma store1_failing_eq:
  "store1_failing = \<lparr>db = \<lparr>isOpen = True, wal = True, foreign_keys = True,
      sessions = Some [\<lparr>row_id = ''s1'', row_createdAt = 100, row_updatedAt = 101,
         row_name = Some ''demo'', row_workingDirectory = ''/tmp'', row_tags = Some ''[\"x\"]''\<rparr>],
      events = Some [], idx_events_sessionId = True, seq = 0, budget = Some 2\<rparr>, initialized = True\<rparr>"
  by (simp add: store1_failing_def store1_eq)

lemma saveEvent_store1_failing:
  "saveEvent compact_json ''s1'' event_a 120 store1_failing =
     (Inl (Error ''Failed to save event: disk I/O error''),
      \<lparr>db = \<lparr>isOpen = True, wal = True, foreign_keys = True,
        sessions = Some [\<lparr>row_id = ''s1'', row_createdAt = 100, row_updatedAt = 101,
           row_name = Some ''demo'', row_workingDirectory = ''/tmp'', row_tags = Some ''[\"x\"]''\<rparr>],
        events = Some [\<lparr>ev_id = 1, ev_sessionId = ''s1'', ev_timestamp = 120,
           ev_eventData = ''{\"type\":\"a\"}''\<rparr>],
        idx_events_sessionId = True, seq = 1, budget = Some 0\<rparr>, initialized = True\<rparr>)"
  by (simp add: store1_failing_eq saveEvent_def ensureInitialized_def require_session_def select_exists_def
      engine_defs insert_event_def update_session_def next_event_id_def event_rows_def session_rows_def
      compact_json_def quote_def event_a_def)

text \<open>
  C5 as stated fails: on an engine that performs two more statements and then fails,
  \<open>saveEvent\<close> for the existing session \<open>s1\<close> throws after the insert, and nothing is
  rolled back: the event row is in the table, and \<open>updatedAt\<close> of the session is still
  101, not 120.
\<close>

theorem saveEvent_not_atomic_counterexample:
  "has_session store1_failing ''s1'' \<and>
   fst (saveEvent compact_json ''s1'' event_a 120 store1_failing) =
     Inl (Error ''Failed to save event: disk I/O error'') \<and>
   event_rows (db store1_failing) = [] \<and>
   event_rows (db (snd (saveEvent compact_json ''s1'' event_a 120 store1_failing))) =
     [\<lparr>ev_id = 1, ev_sessionId = ''s1'', ev_timestamp = 120, ev_eventData = ''{\"type\":\"a\"}''\<rparr>] \<and>
   map row_updatedAt (session_rows (db (snd (saveEvent compact_json ''s1'' event_a 120 store1_failing)))) = [101]"
  unfolding saveEvent_store1_failing
  by (simp add: store1_failing_eq has_session_def event_rows_def session_rows_def)

theorem saveEvent_two_writes_witness:
  "operational store1 \<and> has_session store1 ''s1'' \<and>
   fst (saveEvent compact_json ''s1'' event_a 120 store1) = Inr () \<and>
   event_rows (db (snd (saveEvent compact_json ''s1'' event_a 120 store1))) =
     [\<lparr>ev_id = 1, ev_sessionId = ''s1'', ev_timestamp = 120, ev_eventData = ''{\"type\":\"a\"}''\<rparr>] \<and>
   map row_updatedAt (session_rows (db (snd (saveEvent compact_json ''s1'' event_a 120 store1)))) = [120] \<and>
   (\<exists>err. fst (saveEvent compact_json ''s1'' event_a 120 store1_failing) = Inl err) \<and>
   session_rows (db (snd (saveEvent compact_json ''s1'' event_a 120 store1_failing))) =
     session_rows (db store1_failing)"
proof -
  have o: "operational store1 \<and> has_session store1 ''s1''"
    by (simp add: operational_def has_session_def session_rows_def store1_eq)
  have f: "\<exists>err. fst (saveEvent compact_json ''s1'' event_a 120 store1_failing) = Inl err"
    by (simp add: saveEvent_store1_failing)
  have n: "next_event_id (db store1) = 1" "event_rows (db store1) = []"
    "map row_updatedAt (session_rows (db store1)) = [101]"
    "map row_id (session_rows (db store1)) = [''s1'']"
    by (simp_all add: next_event_id_def event_rows_def session_rows_def store1_eq)
  from saveEvent_two_writes [of store1 "''s1''" compact_json event_a 120] o
  have 1: "fst (saveEvent compact_json ''s1'' event_a 120 store1) = Inr ()" by blast
  with saveEvent_two_writes [of store1 "''s1''" compact_json event_a 120]
  have 2: "event_rows (db (snd (saveEvent compact_json ''s1'' event_a 120 store1))) =
      event_rows (db store1) @
        [\<lparr>ev_id = next_event_id (db store1), ev_sessionId = ''s1'', ev_timestamp = 120,
          ev_eventData = stringify compact_json event_a\<rparr>]"
    and 3: "session_rows (db (snd (saveEvent compact_json ''s1'' event_a 120 store1))) =
        map (\<lambda>r. if row_id r = ''s1'' then r\<lparr>row_updatedAt := 120\<rparr> else r) (session_rows (db store1))"
    by blast+
  from saveEvent_two_writes [of store1_failing "''s1''" compact_json event_a 120] f
  have 4: "session_rows (db (snd (saveEvent compact_json ''s1'' event_a 120 store1_failing))) =
     session_rows (db store1_failing)" by blast
  have 5: "stringify compact_json event_a = ''{\"type\":\"a\"}''"
    by (simp add: compact_json_def event_a_def quote_def)
  have 6: "map row_updatedAt (session_rows (db (snd (saveEvent compact_json ''s1'' event_a 120 store1)))) = [120]"
    unfolding 3 by (simp add: session_rows_def store1_eq)
  show ?thesis
    using o 1 f 4 6 by (simp add: 2 5 n)
qed

subsection \<open>Reading the events of a session\<close>

lemma getSessionEvents_ready:
  assumes "ready p" "has_session p sid"
  shows "getSessionEvents J sid clock p =
     (Inr (map (\<lambda>(i, eventData). decode_row J (clock i) eventData)
            (enumerate 0 (map ev_eventData (session_events sid (event_rows (db p)))))), p)"
proof -
  from assms(1) obtain rs es where t: "sessions (db p) = Some rs" "events (db p) = Some es"
    and o: "isOpen (db p)" "budget (db p) = None"
    by (auto simp: ready_def)
  have r: "event_rows (db p) = es"
    by (simp add: event_rows_def t)
  show ?thesis
    by (simp add: getSessionEvents_def ensureInitialized_ready [OF assms(1)] and_then_def try_catch_def
        require_session_ready [OF assms(1)] assms(2) on_db_def select_events_def
        stmt_def engine_ready_def t o r spend_def return_ok_def)
qed

lemma getSessionEvents_operational:
  assumes "operational p" "has_session p sid"
  shows "fst (getSessionEvents J sid clock p) =
     Inr (map (\<lambda>(i, eventData). decode_row J (clock i) eventData)
            (enumerate 0 (map ev_eventData (session_events sid (event_rows (db p))))))
     \<and> contents (db (snd (getSessionEvents J sid clock p))) = contents (db p)"
proof -
  from assms(1) obtain p1 where p1: "ensureInitialized p = (Inr (), p1)" "ready p1"
    "contents (db p1) = contents (db p)"
    by (rule lazy_init)
  have h: "has_session p1 sid"
    using has_session_contents [OF p1(3)] assms(2) by simp
  have e: "event_rows (db p1) = event_rows (db p)"
    using p1(3) by (simp add: contents_def)
  show ?thesis
    unfolding getSessionEvents_def and_then_init [OF p1(1,2)]
    using getSessionEvents_ready [OF p1(2) h, of J clock]
    by (simp add: getSessionEvents_def e p1(3))
qed

lemma nth_decoded:
  assumes "i < length rows"
  shows "map (\<lambda>(i, eventData). decode_row J (clock i) eventData) (enumerate 0 rows) ! i =
     decode_row J (clock i) (rows ! i)"
  using assms by (simp add: nth_enumerate_eq)

text \<open>
  C4: on a store the methods can work on and for an existing session, when the record
  read at position \<open>k\<close> of the log does not parse, \<open>getSessionEvents\<close> still returns:
  one event for each record, at \<open>k\<close> the placeholder of type \<open>system\<close> with the message
  \<^verbatim>\<open>Failed to parse event data\<close> and the reading of the clock, and at every position whose
  record parses the parsed value.
\<close>

theorem getSessionEvents_corrupt_record:
  assumes "operational p" "has_session p sessionId"
    and "rows = map ev_eventData (session_events sessionId (event_rows (db p)))"
    and "k < length rows" "parse J (rows ! k) = Inl err"
  shows "\<exists>evs. fst (getSessionEvents J sessionId clock p) = Inr evs \<and>
           length evs = length rows \<and>
           evs ! k = JObj [(''type'', JStr ''system''),
                           (''message'', JStr ''Failed to parse event data''),
                           (''timestamp'', JNum (clock k))] \<and>
           (\<forall>i < length rows. \<forall>v. parse J (rows ! i) = Inr v \<longrightarrow> evs ! i = v)"
proof -
  let ?evs = "map (\<lambda>(i, eventData). decode_row J (clock i) eventData) (enumerate 0 rows)"
  have "fst (getSessionEvents J sessionId clock p) = Inr ?evs"
    using getSessionEvents_operational [OF assms(1,2), of J clock] assms(3) by simp
  moreover have "length ?evs = length rows" by simp
  moreover have "?evs ! k = JObj [(''type'', JStr ''system''),
                           (''message'', JStr ''Failed to parse event data''),
                           (''timestamp'', JNum (clock k))]"
    by (simp only: nth_decoded [OF assms(4)]) (simp add: decode_row_def placeholder_def assms(5))
  moreover have "?evs ! i = v" if "i < length rows" "parse J (rows ! i) = Inr v" for i v
    by (simp only: nth_decoded [OF that(1)]) (simp add: decode_row_def that(2))
  ultimately show ?thesis by blast
qed


lemma store2_corrupt_eq:
  "store2_corrupt = \<lparr>db = \<lparr>isOpen = True, wal = True, foreign_keys = True,
      sessions = Some [\<lparr>row_id = ''s1'', row_createdAt = 100, row_updatedAt = 110,
         row_name = Some ''demo'', row_workingDirectory = ''/tmp'', row_tags = Some ''[\"x\"]''\<rparr>],
      events = Some [\<lparr>ev_id = 1, ev_sessionId = ''s1'', ev_timestamp = 110, ev_eventData = ''{\"type\":''\<rparr>,
                     \<lparr>ev_id = 2, ev_sessionId = ''s1'', ev_timestamp = 110, ev_eventData = ''{\"type\":\"b\"}''\<rparr>],
      idx_events_sessionId = True, seq = 2, budget = None\<rparr>, initialized = True\<rparr>"
  by (simp add: store2_corrupt_def store2_eq event_rows_def)

theorem getSessionEvents_corrupt_record_witness:
  "operational store2_corrupt \<and> has_session store2_corrupt ''s1'' \<and>
   map ev_eventData (session_events ''s1'' (event_rows (db store2_corrupt))) =
     [''{\"type\":'', ''{\"type\":\"b\"}''] \<and>
   parse compact_json ''{\"type\":'' = Inl (Error ''Unexpected token'') \<and>
   fst (getSessionEvents compact_json ''s1'' (\<lambda>i. 200 + int i) store2_corrupt) =
     Inr [JObj [(''type'', JStr ''system''), (''message'', JStr ''Failed to parse event data''),
                (''timestamp'', JNum 200)],
          JObj [(''type'', JStr ''b'')]]"
proof -
  have o: "operational store2_corrupt" "has_session store2_corrupt ''s1''"
    by (simp_all add: operational_def has_session_def session_rows_def store2_corrupt_eq)
  have r: "[''{\"type\":'', ''{\"type\":\"b\"}''] =
      map ev_eventData (session_events ''s1'' (event_rows (db store2_corrupt)))"
    by (simp add: session_events_def event_rows_def store2_corrupt_eq)
  have b: "parse compact_json ''{\"type\":'' = Inl (Error ''Unexpected token'')"
    by (simp add: compact_json_def parse_text_def read_nat_def)
  have g: "parse compact_json ''{\"type\":\"b\"}'' = Inr (JObj [(''type'', JStr ''b'')])"
    by (simp add: compact_json_def parse_text_def)
  from getSessionEvents_corrupt_record [OF o r, of 0 compact_json _ "\<lambda>i. 200 + int i"] b
  obtain evs where e: "fst (getSessionEvents compact_json ''s1'' (\<lambda>i. 200 + int i) store2_corrupt) = Inr evs"
    "length evs = 2"
    "evs ! 0 = JObj [(''type'', JStr ''system''), (''message'', JStr ''Failed to parse event data''),
                (''timestamp'', JNum 200)]"
    "\<forall>i < 2. \<forall>v. parse compact_json ([''{\"type\":'', ''{\"type\":\"b\"}''] ! i) = Inr v \<longrightarrow> evs ! i = v"
    by auto
  from e(4) g have "evs ! 1 = JObj [(''type'', JStr ''b'')]"
    by simp
  with e(2,3) have "evs = [JObj [(''type'', JStr ''system''), (''message'', JStr ''Failed to parse event data''),
                (''timestamp'', JNum 200)], JObj [(''type'', JStr ''b'')]]"
    by (auto simp: length_Suc_conv numeral_2_eq_2)
  with e(1) o r b show ?thesis by simp
qed

subsection \<open>Saving and reading back\<close>

lemma ready_operational: "ready p \<Longrightarrow> operational p"
  by (simp add: ready_def operational_def)

lemma fold_max_Max: "fold max xs (s::nat) = Max (insert s (set xs))"
  using Max.set_eq_fold [of s xs] by simp

lemma next_event_id_gt: "e \<in> set (event_rows d) \<Longrightarrow> ev_id e < next_event_id d"
  by (simp add: next_event_id_def fold_max_Max less_Suc_eq_le)

lemma has_session_ids: "has_session p sid \<longleftrightarrow> sid \<in> set (map row_id (session_rows (db p)))"
  by (auto simp: has_session_iff)

lemma next_event_id_after:
  assumes "event_rows d' = event_rows d @ [e]" "ev_id e = next_event_id d" "seq d' = next_event_id d"
  shows "next_event_id d' = Suc (next_event_id d)"
proof -
  let ?n = "next_event_id d"
  have "\<forall>x \<in> set (event_rows d). ev_id x \<le> ?n"
    using next_event_id_gt [of _ d] by (auto simp: less_imp_le)
  then have "Max (insert ?n (ev_id ` set (event_rows d))) = ?n"
    by (intro Max_eqI) auto
  then have m: "fold max (map ev_id (event_rows d)) ?n = ?n"
    by (simp add: fold_max_Max)
  have "next_event_id d' = Suc (fold max (map ev_id (event_rows d @ [e])) ?n)"
    by (simp only: next_event_id_def [of d'] assms(1,3))
  also have "\<dots> = Suc (max (ev_id e) (fold max (map ev_id (event_rows d)) ?n))"
    by simp
  finally show ?thesis
    by (simp only: m assms(2) max.idem)
qed

lemma saveEvent_step:
  assumes "operational p" "has_session p sid"
  shows "\<exists>p'. saveEvent J sid e t p = (Inr (), p') \<and> ready p' \<and> has_session p' sid \<and>
           event_rows (db p') = event_rows (db p) @
             [\<lparr>ev_id = next_event_id (db p), ev_sessionId = sid, ev_timestamp = t,
               ev_eventData = stringify J e\<rparr>] \<and>
           next_event_id (db p') = Suc (next_event_id (db p))"
proof -
  from assms(1) obtain p1 where p1: "ensureInitialized p = (Inr (), p1)" "ready p1"
    "contents (db p1) = contents (db p)"
    by (rule lazy_init)
  have h: "has_session p1 sid"
    using has_session_contents [OF p1(3)] assms(2) by simp
  have c: "event_rows (db p1) = event_rows (db p)" "next_event_id (db p1) = next_event_id (db p)"
    using p1(3) by (simp_all add: contents_def next_event_id_def)
  let ?row = "\<lparr>ev_id = next_event_id (db p), ev_sessionId = sid, ev_timestamp = t,
               ev_eventData = stringify J e\<rparr>"
  let ?p' = "p1\<lparr>db := (db p1)\<lparr>
        events := Some (event_rows (db p) @ [?row]),
        seq := next_event_id (db p),
        sessions := Some (map (\<lambda>r. if row_id r = sid then r\<lparr>row_updatedAt := t\<rparr> else r)
                            (session_rows (db p1)))\<rparr>\<rparr>"
  have s: "saveEvent J sid e t p = (Inr (), ?p')"
    using saveEvent_ready [OF p1(2) h, of J e t]
    unfolding saveEvent_def and_then_init [OF p1(1,2)] by (simp add: c)
  have r: "ready ?p'"
    using p1(2) by (simp add: ready_def)
  have m: "map row_id (map (\<lambda>r. if row_id r = sid then r\<lparr>row_updatedAt := t\<rparr> else r) rs) =
      map row_id rs" for rs :: "SessionRow list"
    by (induction rs) auto
  have sr: "session_rows (db ?p') =
      map (\<lambda>r. if row_id r = sid then r\<lparr>row_updatedAt := t\<rparr> else r) (session_rows (db p1))"
    by (simp add: session_rows_def)
  have hs: "has_session ?p' sid"
    using h unfolding has_session_ids sr m .
  have er: "event_rows (db ?p') = event_rows (db p) @ [?row]"
    by (simp add: event_rows_def)
  have ne: "next_event_id (db ?p') = Suc (next_event_id (db p))"
    by (rule next_event_id_after [OF er]) simp_all
  show ?thesis
    using s r hs er ne by blast
qed

text \<open>
  C8: on a store the methods can work on and for an existing session, a payload \<open>P\<close>
  that survives the codec (\<^verbatim>\<open>JSON.parse(JSON.stringify(P))\<close> is \<open>P\<close>) is saved, and
  \<open>getSessionEvents\<close> then returns one event more than the log had, with \<open>P\<close> at the
  position of the new row in the order of the read.
\<close>

theorem saveEvent_round_trip:
  assumes "operational p" "has_session p sessionId" "parse J (stringify J P) = Inr P"
  shows "fst (saveEvent J sessionId P now p) = Inr () \<and>
    (\<exists>evs i. fst (getSessionEvents J sessionId clock (snd (saveEvent J sessionId P now p))) = Inr evs \<and>
        length evs = Suc (length (session_events sessionId (event_rows (db p)))) \<and>
        i < length evs \<and>
        session_events sessionId (event_rows (db (snd (saveEvent J sessionId P now p)))) ! i =
          \<lparr>ev_id = next_event_id (db p), ev_sessionId = sessionId, ev_timestamp = now,
            ev_eventData = stringify J P\<rparr> \<and>
        evs ! i = P)"
proof -
  let ?row = "\<lparr>ev_id = next_event_id (db p), ev_sessionId = sessionId, ev_timestamp = now,
            ev_eventData = stringify J P\<rparr>"
  from saveEvent_step [OF assms(1,2), of J P now] obtain p' where
    p': "saveEvent J sessionId P now p = (Inr (), p')" "ready p'" "has_session p' sessionId"
      "event_rows (db p') = event_rows (db p) @ [?row]"
    by blast
  let ?rows = "session_events sessionId (event_rows (db p'))"
  let ?evs = "map (\<lambda>(i, eventData). decode_row J (clock i) eventData) (enumerate 0 (map ev_eventData ?rows))"
  have g: "fst (getSessionEvents J sessionId clock p') = Inr ?evs"
    by (simp add: getSessionEvents_ready [OF p'(2,3)])
  have l: "length ?rows = Suc (length (session_events sessionId (event_rows (db p))))"
    by (simp add: session_events_def p'(4))
  have "?row \<in> set ?rows"
    by (simp add: session_events_def p'(4))
  then obtain i where i: "i < length ?rows" "?rows ! i = ?row"
    by (auto simp: in_set_conv_nth)
  have "?evs ! i = decode_row J (clock i) (map ev_eventData ?rows ! i)"
    using i(1) nth_decoded [of i "map ev_eventData ?rows" J clock] by simp
  also have "\<dots> = P"
    using i by (simp add: decode_row_def assms(3))
  finally have "?evs ! i = P" .
  with g l i show ?thesis
    unfolding p'(1) fst_conv snd_conv
    by (intro conjI exI [of _ ?evs] exI [of _ i]) simp_all
qed


theorem saveEvent_round_trip_witness:
  "operational store2 \<and> has_session store2 ''s1'' \<and>
   parse compact_json (stringify compact_json event_a) = Inr event_a \<and>
   length (session_events ''s1'' (event_rows (db store2))) = 2 \<and>
   fst (saveEvent compact_json ''s1'' event_a 120 store2) = Inr () \<and>
   (\<exists>evs. fst (getSessionEvents compact_json ''s1'' (\<lambda>i. 0)
                    (snd (saveEvent compact_json ''s1'' event_a 120 store2))) = Inr evs \<and>
      length evs = 3 \<and>
      session_events ''s1'' (event_rows (db (snd (saveEvent compact_json ''s1'' event_a 120 store2)))) ! 2 =
        \<lparr>ev_id = 3, ev_sessionId = ''s1'', ev_timestamp = 120, ev_eventData = ''{\"type\":\"a\"}''\<rparr> \<and>
      evs ! 2 = event_a)"
proof -
  let ?S = "snd (saveEvent compact_json ''s1'' event_a 120 store2)"
  let ?new = "\<lparr>ev_id = 3, ev_sessionId = ''s1'', ev_timestamp = 120, ev_eventData = ''{\"type\":\"a\"}''\<rparr>"
  have o: "operational store2" and h: "has_session store2 ''s1''"
    by (simp_all add: operational_def has_session_def session_rows_def store2_eq)
  have r: "parse compact_json (stringify compact_json event_a) = Inr event_a"
    by (simp add: compact_json_def parse_text_def event_a_def quote_def)
  have l: "length (session_events ''s1'' (event_rows (db store2))) = 2"
    by (simp add: session_events_def event_rows_def store2_eq)
  have n: "\<lparr>ev_id = next_event_id (db store2), ev_sessionId = ''s1'', ev_timestamp = 120,
            ev_eventData = stringify compact_json event_a\<rparr> = ?new"
    by (simp add: next_event_id_def event_rows_def store2_eq compact_json_def event_a_def quote_def)
  from saveEvent_step [OF o h, of compact_json event_a 120] have
    er: "event_rows (db ?S) = event_rows (db store2) @ [?new]"
    unfolding n by auto
  have e2: "event_rows (db store2) =
      [\<lparr>ev_id = 1, ev_sessionId = ''s1'', ev_timestamp = 110, ev_eventData = ''{\"type\":\"a\"}''\<rparr>,
       \<lparr>ev_id = 2, ev_sessionId = ''s1'', ev_timestamp = 110, ev_eventData = ''{\"type\":\"b\"}''\<rparr>]"
    by (simp add: event_rows_def store2_eq)
  have rows: "session_events ''s1'' (event_rows (db ?S)) =
      [\<lparr>ev_id = 1, ev_sessionId = ''s1'', ev_timestamp = 110, ev_eventData = ''{\"type\":\"a\"}''\<rparr>,
       \<lparr>ev_id = 2, ev_sessionId = ''s1'', ev_timestamp = 110, ev_eventData = ''{\"type\":\"b\"}''\<rparr>,
       ?new]"
    unfolding er e2 by (simp add: session_events_def)
  from saveEvent_round_trip [OF o h r, of 120 "\<lambda>i. 0", unfolded n l rows]
  obtain evs i where s: "fst (saveEvent compact_json ''s1'' event_a 120 store2) = Inr ()"
    and e: "fst (getSessionEvents compact_json ''s1'' (\<lambda>i. 0) ?S) = Inr evs" "length evs = 3"
      "i < length evs"
      "[\<lparr>ev_id = 1, ev_sessionId = ''s1'', ev_timestamp = 110, ev_eventData = ''{\"type\":\"a\"}''\<rparr>,
        \<lparr>ev_id = 2, ev_sessionId = ''s1'', ev_timestamp = 110, ev_eventData = ''{\"type\":\"b\"}''\<rparr>,
        ?new] ! i = ?new"
      "evs ! i = event_a"
    by (auto simp: numeral_3_eq_3 numeral_2_eq_2)
  from e(2,3,4) have "i = 2"
    by (auto simp: numeral_3_eq_3 less_Suc_eq)
  with e have "evs ! 2 = event_a" "session_events ''s1'' (event_rows (db ?S)) ! 2 = ?new"
    by (simp_all add: rows)
  with o h r l s e(1,2) show ?thesis
    by blast
qed

subsection \<open>The order of the log\<close>

lemma insort_key_snoc:
  "f a \<le> f x \<Longrightarrow> insort_key f a (ys @ [x]) = insort_key f a ys @ [x]"
  by (induction ys) auto

lemma foldr_insort_key_snoc:
  "\<forall>y \<in> set xs. f y \<le> f x \<Longrightarrow> foldr (insort_key f) xs [x] = sort_key f xs @ [x]"
  by (induction xs) (auto simp: insort_key_snoc sort_key_def)

lemma sort_key_snoc:
  "\<forall>y \<in> set xs. f y \<le> f x \<Longrightarrow> sort_key f (xs @ [x]) = sort_key f xs @ [x]"
  using foldr_insort_key_snoc [of xs f x] by (simp add: sort_key_def)

lemma sort_key_append_sorted:
  "sorted (map f ys) \<Longrightarrow> \<forall>x \<in> set xs. \<forall>y \<in> set ys. f x \<le> f y \<Longrightarrow>
   sort_key f (xs @ ys) = sort_key f xs @ ys"
proof (induction ys rule: rev_induct)
  case Nil
  then show ?case by simp
next
  case (snoc z zs)
  have "sort_key f ((xs @ zs) @ [z]) = sort_key f (xs @ zs) @ [z]"
    using snoc.prems by (intro sort_key_snoc) (auto simp: sorted_append)
  moreover have "sort_key f (xs @ zs) = sort_key f xs @ zs"
    using snoc.prems by (intro snoc.IH) (auto simp: sorted_append)
  ultimately show ?case by simp
qed

lemma saveEvents_rows:
  assumes "operational p" "has_session p sid"
  shows "\<exists>p1. saveEvents J sid ets p = (Inr (), p1) \<and> operational p1 \<and> has_session p1 sid \<and>
     event_rows (db p1) = event_rows (db p) @
       map (\<lambda>(i, (e, t)). \<lparr>ev_id = i, ev_sessionId = sid, ev_timestamp = t, ev_eventData = stringify J e\<rparr>)
         (enumerate (next_event_id (db p)) ets)"
  using assms
proof (induction ets arbitrary: p)
  case Nil
  then show ?case by (simp add: return_ok_def)
next
  case (Cons et ets)
  obtain e t where et: "et = (e, t)" by (cases et)
  from saveEvent_step [OF Cons.prems, of J e t] obtain p' where
    p': "saveEvent J sid e t p = (Inr (), p')" "ready p'" "has_session p' sid"
      "event_rows (db p') = event_rows (db p) @
             [\<lparr>ev_id = next_event_id (db p), ev_sessionId = sid, ev_timestamp = t,
               ev_eventData = stringify J e\<rparr>]"
      "next_event_id (db p') = Suc (next_event_id (db p))"
    by blast
  from Cons.IH [OF ready_operational [OF p'(2)] p'(3)] obtain p1 where
    p1: "saveEvents J sid ets p' = (Inr (), p1)" "operational p1" "has_session p1 sid"
     "event_rows (db p1) = event_rows (db p') @
       map (\<lambda>(i, (e, t)). \<lparr>ev_id = i, ev_sessionId = sid, ev_timestamp = t, ev_eventData = stringify J e\<rparr>)
         (enumerate (next_event_id (db p')) ets)"
    by blast
  have "saveEvents J sid (et # ets) p = (Inr (), p1)"
    by (simp add: et and_then_def p'(1) p1(1))
  moreover have "event_rows (db p1) = event_rows (db p) @
       map (\<lambda>(i, (e, t)). \<lparr>ev_id = i, ev_sessionId = sid, ev_timestamp = t, ev_eventData = stringify J e\<rparr>)
         (enumerate (next_event_id (db p)) (et # ets))"
    by (simp add: p1(4) p'(4,5) et)
  ultimately show ?case using p1(2,3) by blast
qed

lemma sorted_new_rows:
  assumes "sorted (map snd ets)"
  shows "sorted (map (\<lambda>r. (ev_timestamp r, ev_id r))
     (map (\<lambda>(i, (e, t)). \<lparr>ev_id = i, ev_sessionId = sid, ev_timestamp = t, ev_eventData = stringify J e\<rparr>)
         (enumerate n ets)))"
  using assms
proof (induction ets arbitrary: n)
  case Nil
  then show ?case by simp
next
  case (Cons et ets)
  have "(snd et, n) \<le> (snd (snd q), fst q)" if "q \<in> set (enumerate (Suc n) ets)" for q
  proof -
    from that have "Suc n \<le> fst q"
      by (simp add: in_set_enumerate_eq)
    moreover from that have "snd q \<in> snd ` set (enumerate (Suc n) ets)"
      by (rule imageI)
    then have "snd q \<in> set ets"
      by (simp only: set_map [symmetric] map_snd_enumerate)
    ultimately show ?thesis using Cons.prems by auto
  qed
  with Cons show ?case
    by (auto simp: case_prod_beta)
qed


lemma session_events_append_new:
  fixes es :: "EventRow list"
  defines "new \<equiv> \<lambda>J sid n ets.
     map (\<lambda>(i, (e, t)). \<lparr>ev_id = i, ev_sessionId = sid, ev_timestamp = t, ev_eventData = stringify J e\<rparr>)
         (enumerate n ets)"
  assumes "sorted (map snd ets)"
    and "\<forall>x \<in> set es. ev_id x < n"
    and "\<forall>x \<in> set es. ev_sessionId x = sid \<longrightarrow> (\<forall>t \<in> set (map snd ets). ev_timestamp x \<le> t)"
  shows "session_events sid (es @ new J sid n ets) = session_events sid es @ new J sid n ets"
proof -
  let ?key = "\<lambda>r. (ev_timestamp r, ev_id r)"
  let ?old = "filter (\<lambda>e. ev_sessionId e = sid) es"
  have f: "filter (\<lambda>e. ev_sessionId e = sid) (new J sid n ets) = new J sid n ets"
    by (auto simp: new_def filter_id_conv)
  have s: "sorted (map ?key (new J sid n ets))"
    unfolding new_def using assms(2) by (rule sorted_new_rows)
  have c: "?key x \<le> ?key y" if "x \<in> set ?old" "y \<in> set (new J sid n ets)" for x y
  proof -
    from that(2) obtain q where q: "q \<in> set (enumerate n ets)"
      "y = \<lparr>ev_id = fst q, ev_sessionId = sid, ev_timestamp = snd (snd q), ev_eventData = stringify J (fst (snd q))\<rparr>"
      by (auto simp: new_def)
    from q(1) have 1: "n \<le> fst q"
      by (simp add: in_set_enumerate_eq)
    from q(1) have "snd q \<in> snd ` set (enumerate n ets)"
      by (rule imageI)
    then have "snd q \<in> set ets"
      by (simp only: set_map [symmetric] map_snd_enumerate)
    then have 2: "snd (snd q) \<in> set (map snd ets)"
      by simp
    from that(1) assms(3,4) 1 2 have "ev_timestamp x \<le> snd (snd q)" "ev_id x \<le> fst q"
      by (auto simp: less_imp_le dest!: bspec)
    then show ?thesis by (auto simp: q(2))
  qed
  have "session_events sid (es @ new J sid n ets) = sort_key ?key (?old @ new J sid n ets)"
    by (simp add: session_events_def f)
  also have "\<dots> = sort_key ?key ?old @ new J sid n ets"
    using s c by (intro sort_key_append_sorted) blast+
  finally show ?thesis by (simp add: session_events_def)
qed

text \<open>
  C3: on a store the methods can work on and for an existing session, saving the events
  \<open>ets\<close> one after the other (each with the reading of the clock of its call) returns
  and appends one row for each, with consecutive ids; \<open>getSessionEvents\<close> then returns the
  decoded records of the session in the order of \<open>(timestamp, id)\<close>, ascending; and when
  the timestamps do not decrease (equal ones included) and no earlier event of the
  session is later than them, that order is the earlier events followed by the new ones
  in the order they were saved.
\<close>

theorem events_read_back_in_order:
  assumes "operational p" "has_session p sessionId"
  shows "fst (saveEvents J sessionId ets p) = Inr () \<and>
    (let p1 = snd (saveEvents J sessionId ets p);
         rows = session_events sessionId (event_rows (db p1));
         new = map (\<lambda>(i, (e, t)). \<lparr>ev_id = i, ev_sessionId = sessionId, ev_timestamp = t,
                                     ev_eventData = stringify J e\<rparr>)
                 (enumerate (next_event_id (db p)) ets)
     in event_rows (db p1) = event_rows (db p) @ new \<and>
        fst (getSessionEvents J sessionId clock p1) =
          Inr (map (\<lambda>(i, eventData). decode_row J (clock i) eventData)
                 (enumerate 0 (map ev_eventData rows))) \<and>
        sorted (map (\<lambda>r. (ev_timestamp r, ev_id r)) rows) \<and>
        (sorted (map snd ets) \<and>
         (\<forall>x \<in> set (event_rows (db p)). ev_sessionId x = sessionId \<longrightarrow>
            (\<forall>t \<in> set (map snd ets). ev_timestamp x \<le> t)) \<longrightarrow>
         rows = session_events sessionId (event_rows (db p)) @ new))"
proof -
  let ?new = "map (\<lambda>(i, (e, t)). \<lparr>ev_id = i, ev_sessionId = sessionId, ev_timestamp = t,
                                     ev_eventData = stringify J e\<rparr>)
                 (enumerate (next_event_id (db p)) ets)"
  from saveEvents_rows [OF assms, of J ets] obtain p1 where
    p1: "saveEvents J sessionId ets p = (Inr (), p1)" "operational p1" "has_session p1 sessionId"
      "event_rows (db p1) = event_rows (db p) @ ?new"
    by blast
  let ?rows = "session_events sessionId (event_rows (db p1))"
  have g: "fst (getSessionEvents J sessionId clock p1) =
          Inr (map (\<lambda>(i, eventData). decode_row J (clock i) eventData)
                 (enumerate 0 (map ev_eventData ?rows)))"
    using getSessionEvents_operational [OF p1(2,3), of J clock] by simp
  have s: "sorted (map (\<lambda>r. (ev_timestamp r, ev_id r)) ?rows)"
    by (simp add: session_events_def)
  have m: "?rows = session_events sessionId (event_rows (db p)) @ ?new"
    if "sorted (map snd ets)"
      "\<forall>x \<in> set (event_rows (db p)). ev_sessionId x = sessionId \<longrightarrow>
            (\<forall>t \<in> set (map snd ets). ev_timestamp x \<le> t)"
    unfolding p1(4)
    using that(1) _ that(2)
    by (rule session_events_append_new) (simp add: next_event_id_gt)
  show ?thesis
    unfolding p1(1) fst_conv snd_conv Let_def
    using p1(4) g s m by blast
qed


theorem events_read_back_in_order_witness:
  "operational store2 \<and> has_session store2 ''s1'' \<and>
   map (\<lambda>r. (ev_timestamp r, ev_id r)) (session_events ''s1'' (event_rows (db store2))) =
     [(110, 1), (110, 2)] \<and>
   fst (saveEvents compact_json ''s1'' [(event_b, 110), (event_a, 115)] store2) = Inr () \<and>
   map (\<lambda>r. (ev_timestamp r, ev_id r))
     (session_events ''s1''
       (event_rows (db (snd (saveEvents compact_json ''s1'' [(event_b, 110), (event_a, 115)] store2))))) =
     [(110, 1), (110, 2), (110, 3), (115, 4)] \<and>
   fst (getSessionEvents compact_json ''s1'' (\<lambda>i. 0)
         (snd (saveEvents compact_json ''s1'' [(event_b, 110), (event_a, 115)] store2))) =
     Inr [event_a, event_b, event_b, event_a]"
proof -
  let ?S = "snd (saveEvents compact_json ''s1'' [(event_b, 110), (event_a, 115)] store2)"
  let ?old = "[\<lparr>ev_id = 1, ev_sessionId = ''s1'', ev_timestamp = 110, ev_eventData = ''{\"type\":\"a\"}''\<rparr>,
               \<lparr>ev_id = 2, ev_sessionId = ''s1'', ev_timestamp = 110, ev_eventData = ''{\"type\":\"b\"}''\<rparr>]"
  let ?new = "[\<lparr>ev_id = 3, ev_sessionId = ''s1'', ev_timestamp = 110, ev_eventData = ''{\"type\":\"b\"}''\<rparr>,
               \<lparr>ev_id = 4, ev_sessionId = ''s1'', ev_timestamp = 115, ev_eventData = ''{\"type\":\"a\"}''\<rparr>]"
  have o: "operational store2" and h: "has_session store2 ''s1''"
    by (simp_all add: operational_def has_session_def session_rows_def store2_eq)
  have old: "session_events ''s1'' (event_rows (db store2)) = ?old"
    by (simp add: session_events_def event_rows_def store2_eq)
  have new: "map (\<lambda>(i, (e, t)). \<lparr>ev_id = i, ev_sessionId = ''s1'', ev_timestamp = t,
                                     ev_eventData = stringify compact_json e\<rparr>)
                 (enumerate (next_event_id (db store2)) [(event_b, 110), (event_a, 115)]) = ?new"
    by (simp add: next_event_id_def event_rows_def store2_eq compact_json_def quote_def
        event_a_def event_b_def)
  have m: "sorted (map snd [(event_b, 110), (event_a, 115::int)]) \<and>
         (\<forall>x \<in> set (event_rows (db store2)). ev_sessionId x = ''s1'' \<longrightarrow>
            (\<forall>t \<in> set (map snd [(event_b, 110), (event_a, 115::int)]). ev_timestamp x \<le> t))"
    by (simp add: event_rows_def store2_eq)
  note t = events_read_back_in_order [OF o h, of compact_json "[(event_b, 110), (event_a, 115)]" "\<lambda>i. 0",
      unfolded Let_def new old]
  from t m have rows: "session_events ''s1'' (event_rows (db ?S)) = ?old @ ?new"
    by blast
  from t have g: "fst (getSessionEvents compact_json ''s1'' (\<lambda>i. 0) ?S) =
          Inr (map (\<lambda>(i, eventData). decode_row compact_json 0 eventData)
                 (enumerate 0 (map ev_eventData (session_events ''s1'' (event_rows (db ?S))))))"
    by blast
  have d: "map (\<lambda>(i, eventData). decode_row compact_json 0 eventData)
                 (enumerate 0 (map ev_eventData (?old @ ?new))) = [event_a, event_b, event_b, event_a]"
    by (simp add: decode_row_def compact_json_def parse_text_def event_a_def event_b_def)
  from t have s: "fst (saveEvents compact_json ''s1'' [(event_b, 110), (event_a, 115)] store2) = Inr ()"
    by blast
  show ?thesis
    unfolding g rows d old using o h s by simp
qed

subsection \<open>Initializing twice\<close>

text \<open>
  C7: \<open>initialize\<close> on a store that is initialized returns and leaves the state as it
  is, and so does \<open>ensureInitialized\<close>, which every method starts with; after an
  \<open>initialize\<close> that returned, a second one returns and changes nothing; on a store the
  methods can work on, \<open>ensureInitialized\<close> returns and leaves the store ready; and
  \<open>initialize\<close> never changes the rows of a table that exists
  (\<^verbatim>\<open>CREATE TABLE IF NOT EXISTS\<close>).
\<close>

theorem initialize_idempotent:
  "(initialized p \<longrightarrow> initialize p = (Inr (), p) \<and> ensureInitialized p = (Inr (), p)) \<and>
   (fst (initialize p) = Inr () \<longrightarrow>
      initialized (snd (initialize p)) \<and>
      initialize (snd (initialize p)) = (Inr (), snd (initialize p)) \<and>
      ensureInitialized (snd (initialize p)) = (Inr (), snd (initialize p))) \<and>
   (operational p \<longrightarrow>
      fst (ensureInitialized p) = Inr () \<and> ready (snd (ensureInitialized p))) \<and>
   session_rows (db (snd (initialize p))) = session_rows (db p) \<and>
   event_rows (db (snd (initialize p))) = event_rows (db p)"
proof -
  have 1: "initialize q = (Inr (), q) \<and> ensureInitialized q = (Inr (), q)" if "initialized q" for q
    using that by (simp add: initialize_def ensureInitialized_def)
  have 2: "initialized (snd (initialize p))" if "fst (initialize p) = Inr ()"
    using that initialize_Inr [of p "()" "snd (initialize p)"]
    by (cases "initialize p") simp
  have 3: "fst (ensureInitialized p) = Inr () \<and> ready (snd (ensureInitialized p))" if "operational p"
    using operational_init [OF that] by auto
  have 4: "contents (db (snd (initialize p))) = contents (db p)"
    by (rule initialize_contents)
  show ?thesis
    using 1 [of p] 1 [of "snd (initialize p)"] 2 3 4 by (simp add: contents_def)
qed

lemma initialize_new_provider:
  "initialize new_provider =
     (Inr (), \<lparr>db = \<lparr>isOpen = True, wal = True, foreign_keys = True, sessions = Some [],
        events = Some [], idx_events_sessionId = True, seq = 0, budget = None\<rparr>, initialized = True\<rparr>)"
  by (simp add: initialize_closed new_provider_def new_database_def session_rows_def event_rows_def)

theorem initialize_idempotent_witness:
  "\<not> initialized new_provider \<and> operational new_provider \<and>
   fst (initialize new_provider) = Inr () \<and>
   initialized (snd (initialize new_provider)) \<and>
   sessions (db (snd (initialize new_provider))) = Some [] \<and>
   events (db (snd (initialize new_provider))) = Some [] \<and>
   initialize (snd (initialize new_provider)) = (Inr (), snd (initialize new_provider)) \<and>
   ensureInitialized (snd (initialize new_provider)) = (Inr (), snd (initialize new_provider)) \<and>
   fst (ensureInitialized new_provider) = Inr () \<and> ready (snd (ensureInitialized new_provider)) \<and>
   initialize store2 = (Inr (), store2) \<and> ensureInitialized store2 = (Inr (), store2) \<and>
   length (event_rows (db store2)) = 2"
proof -
  have a: "fst (initialize new_provider) = Inr ()"
    by (simp add: initialize_new_provider)
  have b: "initialized store2"
    by (simp add: store2_eq)
  have c: "\<not> initialized new_provider \<and> operational new_provider"
    by (simp add: new_provider_def new_database_def operational_def)
  have d: "sessions (db (snd (initialize new_provider))) = Some [] \<and>
      events (db (snd (initialize new_provider))) = Some []"
    by (simp add: initialize_new_provider)
  have e: "length (event_rows (db store2)) = 2"
    by (simp add: store2_eq event_rows_def)
  from initialize_idempotent [of new_provider] initialize_idempotent [of store2] a b c d e
  show ?thesis by blast
qed

subsection \<open>Creating a session\<close>

lemma createSession_ready:
  assumes "ready p"
  shows "createSession J md now1 now2 p =
    (case md_workingDirectory md of
       None \<Rightarrow> (Inl (Error ''Failed to create session: Provided value cannot be bound to SQLite parameter 5.''), p)
     | Some wd \<Rightarrow>
         if has_session p (md_id md)
         then (Inl (Error ''Failed to create session: UNIQUE constraint failed: sessions.id''), p)
         else (Inr (md\<lparr>md_createdAt := Some (or_number (md_createdAt md) now1),
                        md_updatedAt := Some (or_number (md_updatedAt md) now2)\<rparr>),
               p\<lparr>db := (db p)\<lparr>sessions := Some (session_rows (db p) @
                  [\<lparr>row_id = md_id md,
                    row_createdAt = or_number (md_createdAt md) now1,
                    row_updatedAt = or_number (md_updatedAt md) now2,
                    row_name = or_null (md_name md),
                    row_workingDirectory = wd,
                    row_tags = tags_json J (md_tags md)\<rparr>])\<rparr>\<rparr>))"
proof -
  from assms obtain rs es where t: "sessions (db p) = Some rs" "events (db p) = Some es"
    and o: "isOpen (db p)" "budget (db p) = None"
    by (auto simp: ready_def)
  have r: "session_rows (db p) = rs"
    by (simp add: session_rows_def t)
  have h: "has_session p (md_id md) \<longleftrightarrow> (\<exists>r \<in> set rs. row_id r = md_id md)"
    by (simp add: has_session_iff r)
  show ?thesis
    by (simp add: createSession_def ensureInitialized_ready [OF assms] and_then_def try_catch_def
        on_db_def insert_session_def stmt_def engine_ready_def t o r h spend_def return_ok_def Let_def
        split: option.splits)
qed

lemma insert_session_duplicate:
  assumes "has_session q sid"
  shows "\<exists>e. on_db (insert_session sid a b c d t) q = (Inl e, q)"
  using assms
  by (auto simp: on_db_def insert_session_def stmt_def has_session_iff session_rows_def
      split: option.splits)

lemma createSession_duplicate:
  assumes "has_session p (md_id md)"
  shows "(\<exists>e. fst (createSession J md now1 now2 p) = Inl e) \<and>
     contents (db (snd (createSession J md now1 now2 p))) = contents (db p)"
proof -
  obtain r0 p1 where i: "ensureInitialized p = (r0, p1)" by (cases "ensureInitialized p")
  have c1: "contents (db p1) = contents (db p)"
    using ensureInitialized_contents [of p] i by simp
  then have h: "has_session p1 (md_id md)"
    using assms has_session_contents [of p1 p "md_id md"] by simp
  from insert_session_duplicate [OF h] obtain e where
    e: "on_db (insert_session (md_id md) (or_number (md_createdAt md) now1)
          (or_number (md_updatedAt md) now2) (or_null (md_name md)) (md_workingDirectory md)
          (tags_json J (md_tags md))) p1 = (Inl e, p1)"
    by blast
  obtain msg where m: "e = Error msg" by (cases e)
  show ?thesis
    using i c1 e m by (cases r0) (auto simp: createSession_def and_then_def try_catch_def Let_def)
qed


lemma createSession_operational:
  assumes "operational p" "md_workingDirectory md = Some wd"
  shows "fst (createSession J md now1 now2 p) =
     (if has_session p (md_id md)
      then Inl (Error ''Failed to create session: UNIQUE constraint failed: sessions.id'')
      else Inr (md\<lparr>md_createdAt := Some (or_number (md_createdAt md) now1),
                    md_updatedAt := Some (or_number (md_updatedAt md) now2)\<rparr>))"
   and "\<not> has_session p (md_id md) \<Longrightarrow>
     session_rows (db (snd (createSession J md now1 now2 p))) = session_rows (db p) @
        [\<lparr>row_id = md_id md,
          row_createdAt = or_number (md_createdAt md) now1,
          row_updatedAt = or_number (md_updatedAt md) now2,
          row_name = or_null (md_name md),
          row_workingDirectory = wd,
          row_tags = tags_json J (md_tags md)\<rparr>]"
   and "\<not> has_session p (md_id md) \<Longrightarrow> ready (snd (createSession J md now1 now2 p))"
proof -
  from assms(1) obtain p1 where p1: "ensureInitialized p = (Inr (), p1)" "ready p1"
    "contents (db p1) = contents (db p)"
    by (rule lazy_init)
  have h: "has_session p1 (md_id md) = has_session p (md_id md)"
    by (rule has_session_contents [OF p1(3)])
  have s: "session_rows (db p1) = session_rows (db p)"
    using p1(3) by (simp add: contents_def)
  have e: "createSession J md now1 now2 p = createSession J md now1 now2 p1"
    unfolding createSession_def by (rule and_then_init [OF p1(1,2)])
  show "fst (createSession J md now1 now2 p) =
     (if has_session p (md_id md)
      then Inl (Error ''Failed to create session: UNIQUE constraint failed: sessions.id'')
      else Inr (md\<lparr>md_createdAt := Some (or_number (md_createdAt md) now1),
                    md_updatedAt := Some (or_number (md_updatedAt md) now2)\<rparr>))"
    by (simp add: e createSession_ready [OF p1(2)] assms(2) h)
  show "session_rows (db (snd (createSession J md now1 now2 p))) = session_rows (db p) @
        [\<lparr>row_id = md_id md,
          row_createdAt = or_number (md_createdAt md) now1,
          row_updatedAt = or_number (md_updatedAt md) now2,
          row_name = or_null (md_name md),
          row_workingDirectory = wd,
          row_tags = tags_json J (md_tags md)\<rparr>]" if "\<not> has_session p (md_id md)"
    using that by (simp add: e createSession_ready [OF p1(2)] assms(2) h s session_rows_def [of "_\<lparr>sessions := _\<rparr>"])
  show "ready (snd (createSession J md now1 now2 p))" if "\<not> has_session p (md_id md)"
    using that p1(2) by (simp add: e createSession_ready [OF p1(2)] assms(2) h ready_def)
qed

lemma and_then_InrD:
  "and_then m f p = (Inr y, p') \<Longrightarrow> \<exists>x p1. m p = (Inr x, p1) \<and> f x p1 = (Inr y, p')"
  by (erule and_then_Inr) blast

lemma createSession_Inr:
  assumes "createSession J md now1 now2 p = (Inr ret, p')"
  shows "ret = md\<lparr>md_createdAt := Some (or_number (md_createdAt md) now1),
                   md_updatedAt := Some (or_number (md_updatedAt md) now2)\<rparr>"
proof -
  from and_then_InrD [OF assms [unfolded createSession_def]] obtain p1 where
    "try_catch ''Failed to create session: ''
       (and_then (on_db (insert_session (md_id md) (or_number (md_createdAt md) now1)
            (or_number (md_updatedAt md) now2) (or_null (md_name md)) (md_workingDirectory md)
            (tags_json J (md_tags md))))
          (\<lambda>_. return_ok (md\<lparr>md_createdAt := Some (or_number (md_createdAt md) now1),
                   md_updatedAt := Some (or_number (md_updatedAt md) now2)\<rparr>))) p1 = (Inr ret, p')"
    by (auto simp: Let_def)
  from and_then_InrD [OF try_catch_Inr [OF this]] show ?thesis
    by (auto simp: return_ok_def)
qed

text \<open>
  C9: whenever the sessions table has a row with the id of the metadata, from any state,
  \<open>createSession\<close> throws and leaves the session rows as they were; on a store the
  methods can work on and with a \<open>workingDirectory\<close>, the error is
  \<^verbatim>\<open>Failed to create session: UNIQUE constraint failed: sessions.id\<close>, the way the class
  reports a duplicate, and for a new id \<open>createSession\<close> returns and the session exists
  afterwards. Whenever it returns, the value is the metadata it was given with
  \<open>createdAt\<close> and \<open>updatedAt\<close> filled in: the given number, or the reading of the clock
  when the number is omitted (or is 0).
\<close>

theorem createSession_duplicate_and_defaults:
  "(has_session p (md_id md) \<longrightarrow>
      (\<exists>e. fst (createSession J md now1 now2 p) = Inl e) \<and>
      session_rows (db (snd (createSession J md now1 now2 p))) = session_rows (db p)) \<and>
   (has_session p (md_id md) \<and> operational p \<and> md_workingDirectory md \<noteq> None \<longrightarrow>
      fst (createSession J md now1 now2 p) =
        Inl (Error ''Failed to create session: UNIQUE constraint failed: sessions.id'')) \<and>
   (\<not> has_session p (md_id md) \<and> operational p \<and> md_workingDirectory md \<noteq> None \<longrightarrow>
      (\<exists>ret. fst (createSession J md now1 now2 p) = Inr ret) \<and>
      has_session (snd (createSession J md now1 now2 p)) (md_id md)) \<and>
   (\<forall>ret. fst (createSession J md now1 now2 p) = Inr ret \<longrightarrow>
      ret = \<lparr>md_id = md_id md,
             md_createdAt = Some (case md_createdAt md of None \<Rightarrow> now1
                                  | Some c \<Rightarrow> if c = 0 then now1 else c),
             md_updatedAt = Some (case md_updatedAt md of None \<Rightarrow> now2
                                  | Some u \<Rightarrow> if u = 0 then now2 else u),
             md_name = md_name md,
             md_workingDirectory = md_workingDirectory md,
             md_tags = md_tags md\<rparr>)"
proof -
  have 1: "(\<exists>e. fst (createSession J md now1 now2 p) = Inl e) \<and>
      session_rows (db (snd (createSession J md now1 now2 p))) = session_rows (db p)"
    if "has_session p (md_id md)"
    using createSession_duplicate [OF that, of J now1 now2] by (simp add: contents_def)
  have 2: "fst (createSession J md now1 now2 p) =
        Inl (Error ''Failed to create session: UNIQUE constraint failed: sessions.id'')"
    if "has_session p (md_id md)" "operational p" "md_workingDirectory md \<noteq> None"
    using that createSession_operational(1) [of p md _ J now1 now2] by auto
  have 3: "(\<exists>ret. fst (createSession J md now1 now2 p) = Inr ret) \<and>
      has_session (snd (createSession J md now1 now2 p)) (md_id md)"
    if "\<not> has_session p (md_id md)" "operational p" "md_workingDirectory md \<noteq> None"
  proof -
    from that(3) obtain wd where wd: "md_workingDirectory md = Some wd" by auto
    from createSession_operational(1) [OF that(2) wd, of J now1 now2] that(1)
    have "\<exists>ret. fst (createSession J md now1 now2 p) = Inr ret" by simp
    moreover from createSession_operational(2) [OF that(2) wd that(1), of J now1 now2]
    have "has_session (snd (createSession J md now1 now2 p)) (md_id md)"
      by (simp add: has_session_iff)
    ultimately show ?thesis by simp
  qed
  have 4: "ret = \<lparr>md_id = md_id md,
             md_createdAt = Some (case md_createdAt md of None \<Rightarrow> now1
                                  | Some c \<Rightarrow> if c = 0 then now1 else c),
             md_updatedAt = Some (case md_updatedAt md of None \<Rightarrow> now2
                                  | Some u \<Rightarrow> if u = 0 then now2 else u),
             md_name = md_name md,
             md_workingDirectory = md_workingDirectory md,
             md_tags = md_tags md\<rparr>"
    if "fst (createSession J md now1 now2 p) = Inr ret" for ret
    using createSession_Inr [of J md now1 now2 p ret "snd (createSession J md now1 now2 p)"] that
    by (cases "createSession J md now1 now2 p") (simp add: or_number_def)
  from 1 2 3 4 show ?thesis by blast
qed


theorem createSession_duplicate_and_defaults_witness:
  "operational store1 \<and> has_session store1 ''s1'' \<and> \<not> has_session store1 ''s2'' \<and>
   fst (createSession compact_json
         \<lparr>md_id = ''s1'', md_createdAt = None, md_updatedAt = None, md_name = None,
          md_workingDirectory = Some ''/w'', md_tags = None\<rparr> 200 201 store1) =
     Inl (Error ''Failed to create session: UNIQUE constraint failed: sessions.id'') \<and>
   session_rows (db (snd (createSession compact_json
         \<lparr>md_id = ''s1'', md_createdAt = None, md_updatedAt = None, md_name = None,
          md_workingDirectory = Some ''/w'', md_tags = None\<rparr> 200 201 store1))) =
     session_rows (db store1) \<and>
   fst (createSession compact_json
         \<lparr>md_id = ''s2'', md_createdAt = None, md_updatedAt = Some 150, md_name = Some ''n'',
          md_workingDirectory = Some ''/w'', md_tags = None\<rparr> 200 201 store1) =
     Inr \<lparr>md_id = ''s2'', md_createdAt = Some 200, md_updatedAt = Some 150, md_name = Some ''n'',
          md_workingDirectory = Some ''/w'', md_tags = None\<rparr> \<and>
   has_session (snd (createSession compact_json
         \<lparr>md_id = ''s2'', md_createdAt = None, md_updatedAt = Some 150, md_name = Some ''n'',
          md_workingDirectory = Some ''/w'', md_tags = None\<rparr> 200 201 store1)) ''s2''"
proof -
  let ?dup = "\<lparr>md_id = ''s1'', md_createdAt = None, md_updatedAt = None, md_name = None,
          md_workingDirectory = Some ''/w'', md_tags = None\<rparr>"
  let ?fresh = "\<lparr>md_id = ''s2'', md_createdAt = None, md_updatedAt = Some 150, md_name = Some ''n'',
          md_workingDirectory = Some ''/w'', md_tags = None\<rparr>"
  have o: "operational store1" and h1: "has_session store1 ''s1''" and h2: "\<not> has_session store1 ''s2''"
    by (simp_all add: operational_def has_session_def session_rows_def store1_eq)
  note d = createSession_duplicate_and_defaults [of store1 ?dup compact_json 200 201, simplified]
  note f = createSession_duplicate_and_defaults [of store1 ?fresh compact_json 200 201, simplified]
  from d o h1 have 1: "fst (createSession compact_json ?dup 200 201 store1) =
     Inl (Error ''Failed to create session: UNIQUE constraint failed: sessions.id'')"
    and 2: "session_rows (db (snd (createSession compact_json ?dup 200 201 store1))) =
     session_rows (db store1)"
    by blast+
  from f o h2 obtain ret where 3: "fst (createSession compact_json ?fresh 200 201 store1) = Inr ret"
    and 4: "has_session (snd (createSession compact_json ?fresh 200 201 store1)) ''s2''"
    by blast
  from f 3 have "ret = \<lparr>md_id = ''s2'', md_createdAt = Some 200, md_updatedAt = Some 150, md_name = Some ''n'',
          md_workingDirectory = Some ''/w'', md_tags = None\<rparr>"
    by blast
  with o h1 h2 1 2 3 4 show ?thesis by simp
qed

subsection \<open>Reading and updating the metadata\<close>

lemma getSessionMetadata_ready:
  assumes "ready p"
  shows "find (\<lambda>r. row_id r = sid) (session_rows (db p)) = None \<Longrightarrow>
           getSessionMetadata J sid p = (Inr None, p)"
    and "find (\<lambda>r. row_id r = sid) (session_rows (db p)) = Some r \<Longrightarrow>
         parse_tags J (row_tags r) = Inr tags \<Longrightarrow>
         \<not> too_large (row_createdAt r) \<Longrightarrow> \<not> too_large (row_updatedAt r) \<Longrightarrow>
           getSessionMetadata J sid p =
             (Inr (Some \<lparr>md_id = row_id r,
                         md_createdAt = Some (row_createdAt r),
                         md_updatedAt = Some (row_updatedAt r),
                         md_name = or_null (row_name r),
                         md_workingDirectory = Some (row_workingDirectory r),
                         md_tags = tags\<rparr>), p)"
proof -
  from assms obtain rs es where t: "sessions (db p) = Some rs" "events (db p) = Some es"
    and o: "isOpen (db p)" "budget (db p) = None"
    by (auto simp: ready_def)
  have r: "session_rows (db p) = rs"
    by (simp add: session_rows_def t)
  show "getSessionMetadata J sid p = (Inr None, p)"
    if "find (\<lambda>r. row_id r = sid) (session_rows (db p)) = None"
    using that
    by (simp add: getSessionMetadata_def ensureInitialized_ready [OF assms] and_then_def try_catch_def
        on_db_def select_session_def stmt_def engine_ready_def t o r spend_def return_ok_def)
  show "getSessionMetadata J sid p =
             (Inr (Some \<lparr>md_id = row_id r,
                         md_createdAt = Some (row_createdAt r),
                         md_updatedAt = Some (row_updatedAt r),
                         md_name = or_null (row_name r),
                         md_workingDirectory = Some (row_workingDirectory r),
                         md_tags = tags\<rparr>), p)"
    if "find (\<lambda>r. row_id r = sid) (session_rows (db p)) = Some r" "parse_tags J (row_tags r) = Inr tags"
      "\<not> too_large (row_createdAt r)" "\<not> too_large (row_updatedAt r)"
    using that
    by (simp add: getSessionMetadata_def ensureInitialized_ready [OF assms] and_then_def try_catch_def
        on_db_def select_session_def stmt_def engine_ready_def t o r spend_def return_ok_def)
qed

lemma safe_not_too_large: "safe_integer v \<Longrightarrow> \<not> too_large v"
  by (simp add: safe_integer_def too_large_def)

text \<open>A row with an integer that is too large cannot be read.\<close>

lemma getSessionMetadata_too_large:
  assumes "ready p" "find (\<lambda>r. row_id r = sid) (session_rows (db p)) = Some r"
    "too_large (row_createdAt r)"
  shows "getSessionMetadata J sid p =
     (Inl (Error (''Failed to get session: Value is too large to be represented as a JavaScript number: ''
                  @ show_int (row_createdAt r))), p)"
proof -
  from assms(1) obtain rs es where t: "sessions (db p) = Some rs" "events (db p) = Some es"
    and o: "isOpen (db p)" "budget (db p) = None"
    by (auto simp: ready_def)
  have r: "session_rows (db p) = rs"
    by (simp add: session_rows_def t)
  show ?thesis
    using assms(2,3)
    by (simp add: getSessionMetadata_def ensureInitialized_ready [OF assms(1)] and_then_def try_catch_def
        on_db_def select_session_def stmt_def engine_ready_def t o r out_of_range_def)
qed

lemma fold_assign_set_clauses:
  "fold assign (set_clauses J patch now) x =
     x\<lparr>row_name := (case p_name patch of Defined n \<Rightarrow> or_null (Some n) | _ \<Rightarrow> row_name x),
       row_workingDirectory := (case p_workingDirectory patch of Defined w \<Rightarrow> w | _ \<Rightarrow> row_workingDirectory x),
       row_tags := (case p_tags patch of Defined t \<Rightarrow> tags_json J (Some t) | _ \<Rightarrow> row_tags x),
       row_updatedAt := now\<rparr>"
  by (cases "p_name patch"; cases "p_workingDirectory patch"; cases "p_tags patch")
     (simp_all add: set_clauses_def)

lemma updateSessionMetadata_ready:
  assumes "ready p" "find (\<lambda>r. row_id r = sid) (session_rows (db p)) = Some r"
    "parse_tags J (row_tags r) = Inr tags"
    "\<not> too_large (row_createdAt r)" "\<not> too_large (row_updatedAt r)"
  shows "updateSessionMetadata J sid patch now p =
    (Inr \<lparr>md_id = row_id r,
          md_createdAt = spread (Some (row_createdAt r)) (p_createdAt patch),
          md_updatedAt = Some now,
          md_name = spread (or_null (row_name r)) (p_name patch),
          md_workingDirectory = spread (Some (row_workingDirectory r)) (p_workingDirectory patch),
          md_tags = spread tags (p_tags patch)\<rparr>,
     p\<lparr>db := (db p)\<lparr>sessions := Some (map (\<lambda>x. if row_id x = sid
          then fold assign (set_clauses J patch now) x else x) (session_rows (db p)))\<rparr>\<rparr>)"
proof -
  from assms(1) obtain rs es where t: "sessions (db p) = Some rs" "events (db p) = Some es"
    and o: "isOpen (db p)" "budget (db p) = None"
    by (auto simp: ready_def)
  have r: "session_rows (db p) = rs"
    by (simp add: session_rows_def t)
  have n: "set_clauses J patch now \<noteq> []"
    by (simp add: set_clauses_def)
  show ?thesis
    by (simp add: updateSessionMetadata_def ensureInitialized_ready [OF assms(1)] and_then_def
        getSessionMetadata_ready(2) [OF assms] try_catch_def Let_def n
        on_db_def update_session_def stmt_def engine_ready_def t o r spend_def return_ok_def)
qed


lemma find_map_same_id:
  assumes "\<And>x. row_id (f x) = row_id x"
  shows "find (\<lambda>r. row_id r = sid) (map f rs) = map_option f (find (\<lambda>r. row_id r = sid) rs)"
  by (induction rs) (auto simp: assms)

text \<open>
  C6: on a store the methods can work on, for a session whose stored tags parse and
  whose stored \<open>createdAt\<close> and \<open>updatedAt\<close> are safe integers (so that the row can be
  read), \<open>updateSessionMetadata\<close> returns, and in the row of the session it writes the columns
  \<open>name\<close>, \<open>workingDirectory\<close> and \<open>tags\<close> whose property in the update holds a
  value, and \<open>updatedAt\<close>, which becomes the reading of the clock; every other column
  (among them \<open>createdAt\<close>), every other session row and every event row is as it
  was. The value returned has the reading of the clock as \<open>updatedAt\<close>, the properties of
  the update that are present, and for every property that is absent what
  \<open>getSessionMetadata\<close> read before the update. For the update \<^verbatim>\<open>{ name: "X" }\<close> that
  is: \<open>workingDirectory\<close>, \<open>tags\<close> and \<open>createdAt\<close> unchanged, \<open>updatedAt\<close> the current
  time.
\<close>

theorem updateSessionMetadata_sparse:
  assumes "operational p"
    and "find (\<lambda>r. row_id r = sessionId) (session_rows (db p)) = Some r"
    and "parse_tags J (row_tags r) = Inr tags"
    and "safe_integer (row_createdAt r)" "safe_integer (row_updatedAt r)"
  shows "fst (updateSessionMetadata J sessionId patch now p) =
      Inr \<lparr>md_id = row_id r,
           md_createdAt = (case p_createdAt patch of Absent \<Rightarrow> Some (row_createdAt r)
                           | Undefined \<Rightarrow> None | Defined c \<Rightarrow> Some c),
           md_updatedAt = Some now,
           md_name = (case p_name patch of Absent \<Rightarrow> or_null (row_name r)
                      | Undefined \<Rightarrow> None | Defined n \<Rightarrow> Some n),
           md_workingDirectory = (case p_workingDirectory patch of Absent \<Rightarrow> Some (row_workingDirectory r)
                                  | Undefined \<Rightarrow> None | Defined w \<Rightarrow> Some w),
           md_tags = (case p_tags patch of Absent \<Rightarrow> tags
                      | Undefined \<Rightarrow> None | Defined t \<Rightarrow> Some t)\<rparr> \<and>
    session_rows (db (snd (updateSessionMetadata J sessionId patch now p))) =
      map (\<lambda>x. if row_id x = sessionId
         then x\<lparr>row_name := (case p_name patch of Defined n \<Rightarrow> or_null (Some n) | _ \<Rightarrow> row_name x),
                row_workingDirectory := (case p_workingDirectory patch of Defined w \<Rightarrow> w
                                         | _ \<Rightarrow> row_workingDirectory x),
                row_tags := (case p_tags patch of Defined t \<Rightarrow> tags_json J (Some t) | _ \<Rightarrow> row_tags x),
                row_updatedAt := now\<rparr>
         else x) (session_rows (db p)) \<and>
    event_rows (db (snd (updateSessionMetadata J sessionId patch now p))) = event_rows (db p)"
proof -
  from assms(1) obtain p1 where p1: "ensureInitialized p = (Inr (), p1)" "ready p1"
    "contents (db p1) = contents (db p)"
    by (rule lazy_init)
  have c: "session_rows (db p1) = session_rows (db p)" "event_rows (db p1) = event_rows (db p)"
    using p1(3) by (simp_all add: contents_def)
  have e: "updateSessionMetadata J sessionId patch now p = updateSessionMetadata J sessionId patch now p1"
    unfolding updateSessionMetadata_def by (rule and_then_init [OF p1(1,2)])
  have f: "find (\<lambda>r. row_id r = sessionId) (session_rows (db p1)) = Some r"
    using assms(2) c by simp
  have sp: "spread old x = (case x of Absent \<Rightarrow> old | Undefined \<Rightarrow> None | Defined v \<Rightarrow> Some v)"
    for old :: "'a option" and x
    by (cases x) simp_all
  show ?thesis
    unfolding e updateSessionMetadata_ready [OF p1(2) f assms(3)
        safe_not_too_large [OF assms(4)] safe_not_too_large [OF assms(5)]] fst_conv snd_conv
    by (simp add: fold_assign_set_clauses sp c session_rows_def [of "_\<lparr>sessions := _\<rparr>"]
        event_rows_def [of "_\<lparr>sessions := _\<rparr>"] event_rows_def [of "db p1", symmetric])
qed


theorem updateSessionMetadata_sparse_witness:
  "operational store2 \<and>
   find (\<lambda>r. row_id r = ''s1'') (session_rows (db store2)) =
     Some \<lparr>row_id = ''s1'', row_createdAt = 100, row_updatedAt = 110, row_name = Some ''demo'',
           row_workingDirectory = ''/tmp'', row_tags = Some ''[\"x\"]''\<rparr> \<and>
   parse_tags compact_json (Some ''[\"x\"]'') = Inr (Some (JArr [JStr ''x''])) \<and>
   safe_integer 100 \<and> safe_integer 110 \<and>
   fst (updateSessionMetadata compact_json ''s1''
         \<lparr>p_createdAt = Absent, p_updatedAt = Absent, p_name = Defined ''X'',
          p_workingDirectory = Absent, p_tags = Absent\<rparr> 300 store2) =
     Inr \<lparr>md_id = ''s1'', md_createdAt = Some 100, md_updatedAt = Some 300, md_name = Some ''X'',
          md_workingDirectory = Some ''/tmp'', md_tags = Some (JArr [JStr ''x''])\<rparr> \<and>
   session_rows (db (snd (updateSessionMetadata compact_json ''s1''
         \<lparr>p_createdAt = Absent, p_updatedAt = Absent, p_name = Defined ''X'',
          p_workingDirectory = Absent, p_tags = Absent\<rparr> 300 store2))) =
     [\<lparr>row_id = ''s1'', row_createdAt = 100, row_updatedAt = 300, row_name = Some ''X'',
       row_workingDirectory = ''/tmp'', row_tags = Some ''[\"x\"]''\<rparr>] \<and>
   event_rows (db (snd (updateSessionMetadata compact_json ''s1''
         \<lparr>p_createdAt = Absent, p_updatedAt = Absent, p_name = Defined ''X'',
          p_workingDirectory = Absent, p_tags = Absent\<rparr> 300 store2))) = event_rows (db store2)"
proof -
  let ?r = "\<lparr>row_id = ''s1'', row_createdAt = 100, row_updatedAt = 110, row_name = Some ''demo'',
           row_workingDirectory = ''/tmp'', row_tags = Some ''[\"x\"]''\<rparr>"
  have o: "operational store2"
    by (simp add: operational_def store2_eq)
  have s: "session_rows (db store2) = [?r]"
    by (simp add: session_rows_def store2_eq)
  have f: "find (\<lambda>r. row_id r = ''s1'') (session_rows (db store2)) = Some ?r"
    by (simp add: s)
  have t: "parse_tags compact_json (row_tags ?r) = Inr (Some (JArr [JStr ''x'']))"
    by (simp add: parse_tags_def compact_json_def parse_text_def)
  have sc: "safe_integer (row_createdAt ?r)" and su: "safe_integer (row_updatedAt ?r)"
    by (simp_all add: safe_integer_def)
  note u = updateSessionMetadata_sparse [OF o f t sc su, of "\<lparr>p_createdAt = Absent, p_updatedAt = Absent,
      p_name = Defined ''X'', p_workingDirectory = Absent, p_tags = Absent\<rparr>" 300,
      unfolded s, simplified]
  from u o f t sc su show ?thesis
    by (simp add: or_null_def)
qed


subsection \<open>The empty name\<close>

lemma find_snoc_new:
  "find P rs = None \<Longrightarrow> P r \<Longrightarrow> find P (rs @ [r]) = Some r"
  by (induction rs) (auto split: if_splits)

lemma createSession_empty_name:
  assumes "operational p" "\<not> has_session p (md_id md)" "md_name md = Some []"
    "md_workingDirectory md = Some wd" "parse_tags J (tags_json J (md_tags md)) = Inr tags"
    "safe_integer (or_number (md_createdAt md) now1)" "safe_integer (or_number (md_updatedAt md) now2)"
  shows "(\<exists>ret. fst (createSession J md now1 now2 p) = Inr ret \<and> md_name ret = Some []) \<and>
     (\<exists>r. find (\<lambda>r. row_id r = md_id md) (session_rows (db (snd (createSession J md now1 now2 p)))) = Some r \<and>
          row_name r = None) \<and>
     (\<exists>m. fst (getSessionMetadata J (md_id md) (snd (createSession J md now1 now2 p))) = Inr (Some m) \<and>
          md_name m = None)"
proof -
  let ?p' = "snd (createSession J md now1 now2 p)"
  let ?row = "\<lparr>row_id = md_id md,
          row_createdAt = or_number (md_createdAt md) now1,
          row_updatedAt = or_number (md_updatedAt md) now2,
          row_name = or_null (md_name md),
          row_workingDirectory = wd,
          row_tags = tags_json J (md_tags md)\<rparr>"
  note c = createSession_operational [OF assms(1,4), of J now1 now2]
  have 1: "fst (createSession J md now1 now2 p) =
      Inr (md\<lparr>md_createdAt := Some (or_number (md_createdAt md) now1),
               md_updatedAt := Some (or_number (md_updatedAt md) now2)\<rparr>)"
    using c(1) assms(2) by simp
  have rows: "session_rows (db ?p') = session_rows (db p) @ [?row]"
    using c(2) [OF assms(2)] .
  have rdy: "ready ?p'"
    using c(3) [OF assms(2)] .
  have "find (\<lambda>r. row_id r = md_id md) (session_rows (db p)) = None"
    using assms(2) by (simp add: has_session_def)
  then have f: "find (\<lambda>r. row_id r = md_id md) (session_rows (db ?p')) = Some ?row"
    unfolding rows by (rule find_snoc_new) simp
  have n: "row_name ?row = None"
    by (simp add: or_null_def assms(3))
  have t: "parse_tags J (row_tags ?row) = Inr tags"
    using assms(5) by simp
  have g: "fst (getSessionMetadata J (md_id md) ?p') =
      Inr (Some \<lparr>md_id = row_id ?row,
                         md_createdAt = Some (row_createdAt ?row),
                         md_updatedAt = Some (row_updatedAt ?row),
                         md_name = or_null (row_name ?row),
                         md_workingDirectory = Some (row_workingDirectory ?row),
                         md_tags = tags\<rparr>)"
    using getSessionMetadata_ready(2) [OF rdy f t] safe_not_too_large [OF assms(6)]
      safe_not_too_large [OF assms(7)]
    by simp
  have "md_name (md\<lparr>md_createdAt := Some (or_number (md_createdAt md) now1),
               md_updatedAt := Some (or_number (md_updatedAt md) now2)\<rparr>) = Some []"
    by (simp add: assms(3))
  with 1 f n g show ?thesis
    by (simp add: or_null_def)
qed

lemma updateSessionMetadata_empty_name:
  assumes "operational p"
    and "find (\<lambda>r. row_id r = sid) (session_rows (db p)) = Some r"
    and "parse_tags J (row_tags r) = Inr tags"
    and "p_name patch = Defined []"
    and "parse_tags J (case p_tags patch of Defined t \<Rightarrow> tags_json J (Some t) | _ \<Rightarrow> row_tags r) = Inr tags'"
    and "safe_integer (row_createdAt r)" "safe_integer (row_updatedAt r)" "safe_integer now"
  shows "(\<exists>ret. fst (updateSessionMetadata J sid patch now p) = Inr ret \<and> md_name ret = Some []) \<and>
     (\<exists>r'. find (\<lambda>r. row_id r = sid) (session_rows (db (snd (updateSessionMetadata J sid patch now p)))) = Some r' \<and>
          row_name r' = None) \<and>
     (\<exists>m. fst (getSessionMetadata J sid (snd (updateSessionMetadata J sid patch now p))) = Inr (Some m) \<and>
          md_name m = None)"
proof -
  from assms(1) obtain p1 where p1: "ensureInitialized p = (Inr (), p1)" "ready p1"
    "contents (db p1) = contents (db p)"
    by (rule lazy_init)
  have c: "session_rows (db p1) = session_rows (db p)"
    using p1(3) by (simp add: contents_def)
  have e: "updateSessionMetadata J sid patch now p = updateSessionMetadata J sid patch now p1"
    unfolding updateSessionMetadata_def by (rule and_then_init [OF p1(1,2)])
  have f: "find (\<lambda>r. row_id r = sid) (session_rows (db p1)) = Some r"
    using assms(2) c by simp
  let ?f = "\<lambda>x. if row_id x = sid then fold assign (set_clauses J patch now) x else x"
  let ?p' = "p1\<lparr>db := (db p1)\<lparr>sessions := Some (map ?f (session_rows (db p1)))\<rparr>\<rparr>"
  note u = updateSessionMetadata_ready [OF p1(2) f assms(3) safe_not_too_large [OF assms(6)]
      safe_not_too_large [OF assms(7)], of patch now]
  have i: "row_id (?f x) = row_id x" for x
    by (simp add: fold_assign_set_clauses)
  have rid: "row_id r = sid"
    using assms(2) by (auto dest: find_Some_iff [THEN iffD1])
  have rows: "session_rows (db ?p') = map ?f (session_rows (db p1))"
    by (simp add: session_rows_def)
  have f': "find (\<lambda>r. row_id r = sid) (session_rows (db ?p')) = Some (?f r)"
    unfolding rows find_map_same_id [of ?f, OF i] f by simp
  have rdy: "ready ?p'"
    using p1(2) by (simp add: ready_def)
  have nm: "row_name (?f r) = None"
    by (simp add: rid fold_assign_set_clauses assms(4) or_null_def)
  have tg: "parse_tags J (row_tags (?f r)) = Inr tags'"
    using assms(5) by (simp add: rid fold_assign_set_clauses)
  have g: "fst (getSessionMetadata J sid ?p') =
      Inr (Some \<lparr>md_id = row_id (?f r),
                         md_createdAt = Some (row_createdAt (?f r)),
                         md_updatedAt = Some (row_updatedAt (?f r)),
                         md_name = or_null (row_name (?f r)),
                         md_workingDirectory = Some (row_workingDirectory (?f r)),
                         md_tags = tags'\<rparr>)"
    using getSessionMetadata_ready(2) [OF rdy f' tg] safe_not_too_large [OF assms(6)]
      safe_not_too_large [OF assms(8)]
    by (simp add: rid fold_assign_set_clauses)
  show ?thesis
    unfolding e u fst_conv snd_conv
    using f' nm g by (simp add: assms(4) or_null_def)
qed

text \<open>
  C10: on a store the methods can work on, a session created with the name \<open>\<close> (the
  empty string), or an existing session updated to that name, has \<open>NULL\<close> in the column
  \<open>name\<close>, and \<open>getSessionMetadata\<close> then returns the session without a name, while the
  value \<open>createSession\<close> (and \<open>updateSessionMetadata\<close>) returned has the empty string
  as its name. The tags stored for the session are taken to parse and its \<open>createdAt\<close>
  and \<open>updatedAt\<close> to be safe integers, so that \<open>getSessionMetadata\<close> can read the row.
\<close>

theorem empty_name_not_preserved:
  "(operational p \<and> \<not> has_session p (md_id md) \<and> md_name md = Some [] \<and>
    md_workingDirectory md \<noteq> None \<and> parse_tags J (tags_json J (md_tags md)) = Inr tags \<and>
    safe_integer (or_number (md_createdAt md) now1) \<and>
    safe_integer (or_number (md_updatedAt md) now2) \<longrightarrow>
      (\<exists>ret. fst (createSession J md now1 now2 p) = Inr ret \<and> md_name ret = Some []) \<and>
      (\<exists>r. find (\<lambda>r. row_id r = md_id md)
              (session_rows (db (snd (createSession J md now1 now2 p)))) = Some r \<and>
           row_name r = None) \<and>
      (\<exists>m. fst (getSessionMetadata J (md_id md) (snd (createSession J md now1 now2 p))) = Inr (Some m) \<and>
           md_name m = None)) \<and>
   (operational q \<and> find (\<lambda>r. row_id r = sessionId) (session_rows (db q)) = Some r \<and>
    parse_tags J (row_tags r) = Inr tags1 \<and> p_name patch = Defined [] \<and>
    parse_tags J (case p_tags patch of Defined t \<Rightarrow> tags_json J (Some t) | _ \<Rightarrow> row_tags r) = Inr tags2 \<and>
    safe_integer (row_createdAt r) \<and> safe_integer (row_updatedAt r) \<and> safe_integer now \<longrightarrow>
      (\<exists>ret. fst (updateSessionMetadata J sessionId patch now q) = Inr ret \<and> md_name ret = Some []) \<and>
      (\<exists>r'. find (\<lambda>r. row_id r = sessionId)
              (session_rows (db (snd (updateSessionMetadata J sessionId patch now q)))) = Some r' \<and>
           row_name r' = None) \<and>
      (\<exists>m. fst (getSessionMetadata J sessionId (snd (updateSessionMetadata J sessionId patch now q))) =
             Inr (Some m) \<and>
           md_name m = None))"
  using createSession_empty_name [of p md _ J tags now1 now2]
    updateSessionMetadata_empty_name [of q sessionId r J tags1 patch tags2 now]
  by (cases "md_workingDirectory md") blast+


theorem empty_name_not_preserved_witness:
  "operational store1 \<and> \<not> has_session store1 ''s2'' \<and>
   safe_integer 200 \<and> safe_integer 201 \<and> safe_integer 100 \<and> safe_integer 110 \<and> safe_integer 300 \<and>
   (\<exists>ret. fst (createSession compact_json
         \<lparr>md_id = ''s2'', md_createdAt = None, md_updatedAt = None, md_name = Some [],
          md_workingDirectory = Some ''/w'', md_tags = None\<rparr> 200 201 store1) = Inr ret \<and>
      md_name ret = Some []) \<and>
   (\<exists>r. find (\<lambda>r. row_id r = ''s2'') (session_rows (db (snd (createSession compact_json
         \<lparr>md_id = ''s2'', md_createdAt = None, md_updatedAt = None, md_name = Some [],
          md_workingDirectory = Some ''/w'', md_tags = None\<rparr> 200 201 store1)))) = Some r \<and>
      row_name r = None) \<and>
   (\<exists>m. fst (getSessionMetadata compact_json ''s2'' (snd (createSession compact_json
         \<lparr>md_id = ''s2'', md_createdAt = None, md_updatedAt = None, md_name = Some [],
          md_workingDirectory = Some ''/w'', md_tags = None\<rparr> 200 201 store1))) = Inr (Some m) \<and>
      md_name m = None) \<and>
   operational store2 \<and>
   map row_name (session_rows (db store2)) = [Some ''demo''] \<and>
   (\<exists>ret. fst (updateSessionMetadata compact_json ''s1''
         \<lparr>p_createdAt = Absent, p_updatedAt = Absent, p_name = Defined [],
          p_workingDirectory = Absent, p_tags = Absent\<rparr> 300 store2) = Inr ret \<and>
      md_name ret = Some []) \<and>
   (\<exists>r. find (\<lambda>r. row_id r = ''s1'') (session_rows (db (snd (updateSessionMetadata compact_json ''s1''
         \<lparr>p_createdAt = Absent, p_updatedAt = Absent, p_name = Defined [],
          p_workingDirectory = Absent, p_tags = Absent\<rparr> 300 store2)))) = Some r \<and>
      row_name r = None) \<and>
   (\<exists>m. fst (getSessionMetadata compact_json ''s1'' (snd (updateSessionMetadata compact_json ''s1''
         \<lparr>p_createdAt = Absent, p_updatedAt = Absent, p_name = Defined [],
          p_workingDirectory = Absent, p_tags = Absent\<rparr> 300 store2))) = Inr (Some m) \<and>
      md_name m = None)"
proof -
  let ?md = "\<lparr>md_id = ''s2'', md_createdAt = None, md_updatedAt = None, md_name = Some [],
          md_workingDirectory = Some ''/w'', md_tags = None\<rparr>"
  let ?patch = "\<lparr>p_createdAt = Absent, p_updatedAt = Absent, p_name = Defined [],
          p_workingDirectory = Absent, p_tags = Absent\<rparr>"
  let ?r = "\<lparr>row_id = ''s1'', row_createdAt = 100, row_updatedAt = 110, row_name = Some ''demo'',
           row_workingDirectory = ''/tmp'', row_tags = Some ''[\"x\"]''\<rparr>"
  have o1: "operational store1" and h: "\<not> has_session store1 ''s2''"
    by (simp_all add: operational_def has_session_def session_rows_def store1_eq)
  have o2: "operational store2"
    by (simp add: operational_def store2_eq)
  have s: "session_rows (db store2) = [?r]"
    by (simp add: session_rows_def store2_eq)
  have f: "find (\<lambda>r. row_id r = ''s1'') (session_rows (db store2)) = Some ?r"
    by (simp add: s)
  have t: "parse_tags compact_json (row_tags ?r) = Inr (Some (JArr [JStr ''x'']))"
    by (simp add: parse_tags_def compact_json_def parse_text_def)
  have c: "operational store1 \<and> \<not> has_session store1 (md_id ?md) \<and> md_name ?md = Some [] \<and>
    md_workingDirectory ?md \<noteq> None \<and>
    parse_tags compact_json (tags_json compact_json (md_tags ?md)) = Inr None \<and>
    safe_integer (or_number (md_createdAt ?md) 200) \<and>
    safe_integer (or_number (md_updatedAt ?md) 201)"
    using o1 h by (simp add: tags_json_def parse_tags_def or_number_def safe_integer_def)
  have u: "operational store2 \<and> find (\<lambda>r. row_id r = ''s1'') (session_rows (db store2)) = Some ?r \<and>
    parse_tags compact_json (row_tags ?r) = Inr (Some (JArr [JStr ''x''])) \<and> p_name ?patch = Defined [] \<and>
    parse_tags compact_json (case p_tags ?patch of Defined t \<Rightarrow> tags_json compact_json (Some t)
       | _ \<Rightarrow> row_tags ?r) = Inr (Some (JArr [JStr ''x''])) \<and>
    safe_integer (row_createdAt ?r) \<and> safe_integer (row_updatedAt ?r) \<and> safe_integer 300"
    using o2 f t by (simp add: safe_integer_def)
  note e = empty_name_not_preserved [of store1 ?md compact_json None 200 201 store2 "''s1''" ?r
      "Some (JArr [JStr ''x''])" ?patch "Some (JArr [JStr ''x''])" 300]
  from e c have 1: "(\<exists>ret. fst (createSession compact_json ?md 200 201 store1) = Inr ret \<and>
        md_name ret = Some []) \<and>
      (\<exists>r. find (\<lambda>r. row_id r = md_id ?md)
              (session_rows (db (snd (createSession compact_json ?md 200 201 store1)))) = Some r \<and>
           row_name r = None) \<and>
      (\<exists>m. fst (getSessionMetadata compact_json (md_id ?md)
              (snd (createSession compact_json ?md 200 201 store1))) = Inr (Some m) \<and>
           md_name m = None)"
    by blast
  from e u have 2: "(\<exists>ret. fst (updateSessionMetadata compact_json ''s1'' ?patch 300 store2) = Inr ret \<and>
        md_name ret = Some []) \<and>
      (\<exists>r'. find (\<lambda>r. row_id r = ''s1'')
              (session_rows (db (snd (updateSessionMetadata compact_json ''s1'' ?patch 300 store2)))) = Some r' \<and>
           row_name r' = None) \<and>
      (\<exists>m. fst (getSessionMetadata compact_json ''s1''
              (snd (updateSessionMetadata compact_json ''s1'' ?patch 300 store2))) = Inr (Some m) \<and>
           md_name m = None)"
    by blast
  have 3: "map row_name (session_rows (db store2)) = [Some ''demo'']"
    by (simp add: s)
  from 1 2 3 o1 o2 h show ?thesis
    by (simp add: safe_integer_def)
qed

end
